theory Spec2Isabelle
  imports Main
begin

text \<open>
  Local Lead Finder streams business leads, one JSON object per line, into a results grid.
  The repository holds two versions of its \<open>runSearch\<close>. In index.tsx the stream is the
  body of a response whose lines are JSON envelopes (\<open>content\<close> or \<open>sources\<close>); the
  content payloads are joined in \<open>jsonBuffer\<close> and cut into lead lines. In the second file
  (src/unnamed/part\_000) the stream is the generation SDK's, whose chunks carry the text of
  the leads and the grounding sources; its functions carry the suffix \<open>_sdk\<close> here where
  the names would clash.
\<close>

section \<open>JavaScript values and strings\<close>

text \<open>
  A JavaScript string is modelled as a \<open>string\<close>: one \<open>char\<close> per code unit, for the code
  units below 256. The value that \<open>JSON.parse\<close> returns is a \<open>json\<close>; \<open>JUndefined\<close> is
  what reading a missing property gives. A Number is kept as the text that JavaScript's
  ToString gives for it (\<open>4.5\<close>, \<open>150\<close>, \<open>1e+21\<close>): the program only tests a Number
  for truthiness and concatenates it to a string.
\<close>

datatype json =
    JUndefined
  | JNull
  | JBool bool
  | JNum string
  | JStr string
  | JArr "json list"
  | JObj "(string \<times> json) list"

text \<open>
  \<open>JSON.parse\<close> belongs to the JavaScript runtime. It is a parameter of every function that
  calls it: \<open>None\<close> stands for the SyntaxError it throws.
\<close>

type_synonym parser = "string \<Rightarrow> json option"

abbreviation nl :: char where
  "nl \<equiv> CHR 0x0A"

text \<open>The white space and line terminators that \<open>String.prototype.trim\<close> strips, below 256.\<close>

definition is_space :: "char \<Rightarrow> bool" where
  "is_space c \<longleftrightarrow> c \<in> {CHR 0x09, CHR 0x0A, CHR 0x0B, CHR 0x0C, CHR 0x0D, CHR 0x20, CHR 0xA0}"

definition trim :: "string \<Rightarrow> string" where
  "trim s = rev (dropWhile is_space (rev (dropWhile is_space s)))"

text \<open>\<open>s.indexOf(c)\<close>: the first position of \<open>c\<close>; \<open>None\<close> stands for \<open>-1\<close>.\<close>

fun indexOf :: "string \<Rightarrow> char \<Rightarrow> nat option" where
  "indexOf [] c = None"
| "indexOf (x # xs) c = (if x = c then Some 0 else map_option Suc (indexOf xs c))"

text \<open>\<open>s.substring(a, b)\<close> clamps both indices to the length and swaps them if needed.\<close>

definition substring :: "string \<Rightarrow> nat \<Rightarrow> nat \<Rightarrow> string" where
  "substring s a b =
     (let a' = min a (length s); b' = min b (length s)
      in take (max a' b' - min a' b') (drop (min a' b') s))"

text \<open>\<open>s.substring(a)\<close>.\<close>

definition substring_from :: "string \<Rightarrow> nat \<Rightarrow> string" where
  "substring_from s a = drop a s"

text \<open>
  \<open>message.type\<close> and \<open>message.payload\<close>. Reading a property of \<open>null\<close> or
  \<open>undefined\<close> throws a TypeError (\<open>None\<close>); an object gives its own property or
  \<open>undefined\<close>; a number, boolean, string or array has neither property, and no prototype
  defines them.
\<close>

fun property :: "json \<Rightarrow> string \<Rightarrow> json option" where
  "property JUndefined k = None"
| "property JNull k = None"
| "property (JObj kvs) k =
     (case map_of kvs k of None \<Rightarrow> Some JUndefined | Some v \<Rightarrow> Some v)"
| "property v k = Some JUndefined"

text \<open>Truthiness of a value.\<close>

fun truthy :: "json \<Rightarrow> bool" where
  "truthy JUndefined = False"
| "truthy JNull = False"
| "truthy (JBool b) = b"
| "truthy (JNum n) = (n \<noteq> ''0'' \<and> n \<noteq> ''NaN'')"
| "truthy (JStr s) = (s \<noteq> [])"
| "truthy (JArr xs) = True"
| "truthy (JObj kvs) = True"

text \<open>
  The string that \<open>jsonBuffer += v\<close> appends: a string as it is, a number and a boolean
  printed, an array as its elements joined by commas (\<open>null\<close> and \<open>undefined\<close> printing as
  nothing inside an array), an object as \<open>[object Object]\<close>. An object with an own \<open>toString\<close> property has
  no callable conversion left (a parsed value is never a function) and the concatenation
  throws a TypeError: \<open>None\<close>.
\<close>

fun toString :: "json \<Rightarrow> string option"
  and join_elements :: "json list \<Rightarrow> string option"
  and element_string :: "json \<Rightarrow> string option" where
  "toString JUndefined = Some ''undefined''"
| "toString JNull = Some ''null''"
| "toString (JBool b) = Some (if b then ''true'' else ''false'')"
| "toString (JNum n) = Some n"
| "toString (JStr s) = Some s"
| "toString (JArr xs) = join_elements xs"
| "toString (JObj kvs) =
     (if ''toString'' \<in> fst ` set kvs then None else Some ''[object Object]'')"
| "join_elements [] = Some []"
| "join_elements [x] = element_string x"
| "join_elements (x # y # ys) =
     (case element_string x of
        None \<Rightarrow> None
      | Some a \<Rightarrow>
          (case join_elements (y # ys) of
             None \<Rightarrow> None
           | Some b \<Rightarrow> Some (a @ '','' @ b)))"
| "element_string JUndefined = Some []"
| "element_string JNull = Some []"
| "element_string v = toString v"

text \<open>
  The elements that \<open>...v\<close> spreads into an array literal: the elements of an array, the
  characters of a string; any other truthy value is not iterable (TypeError, \<open>None\<close>).
\<close>

fun spread :: "json \<Rightarrow> json list option" where
  "spread (JArr xs) = Some xs"
| "spread (JStr s) = Some (map (\<lambda>c. JStr [c]) s)"
| "spread v = None"

section \<open>The lead loop (both files)\<close>

text \<open>
  \<^verbatim>\<open>
  while ((leadNewlineIndex = jsonBuffer.indexOf('\n')) !== -1) {
    const leadLine = jsonBuffer.substring(0, leadNewlineIndex).trim();
    jsonBuffer = jsonBuffer.substring(leadNewlineIndex + 1);
    if (leadLine) {
      try {
        const parsedLead: BusinessLead = JSON.parse(leadLine);
        setLeads(prevLeads => [...prevLeads, parsedLead]);
      } catch (e) { console.warn(...); }
    }
  }
  \<close>
  The loop reads and writes \<open>jsonBuffer\<close> and the \<open>leads\<close> state; both are passed and returned.
  \<open>BusinessLead\<close> is a compile-time annotation: the list holds whatever was parsed.
\<close>

definition parse_lead :: "parser \<Rightarrow> string \<Rightarrow> json list \<Rightarrow> json list" where
  "parse_lead parse leadLine leads =
     (if leadLine \<noteq> [] then
        (case parse leadLine of
           Some parsedLead \<Rightarrow> leads @ [parsedLead]
         | None \<Rightarrow> leads)
      else leads)"

function lead_loop :: "parser \<Rightarrow> string \<Rightarrow> json list \<Rightarrow> string \<times> json list" where
  "lead_loop parse jsonBuffer leads =
     (case indexOf jsonBuffer nl of
        None \<Rightarrow> (jsonBuffer, leads)
      | Some leadNewlineIndex \<Rightarrow>
          lead_loop parse
            (substring_from jsonBuffer (leadNewlineIndex + 1))
            (parse_lead parse (trim (substring jsonBuffer 0 leadNewlineIndex)) leads))"
  by pat_completeness auto

lemma indexOf_less: "indexOf s c = Some i \<Longrightarrow> i < length s"
  by (induction s arbitrary: i) (auto split: if_splits)

termination lead_loop
  by (relation "measure (\<lambda>(parse, jsonBuffer, leads). length jsonBuffer)")
     (auto simp: substring_from_def dest: indexOf_less)

declare lead_loop.simps [simp del]

section \<open>An instance of \<open>JSON.parse\<close>\<close>

text \<open>
  The theorems below hold for every \<open>parse\<close>. \<open>JSON_parse\<close> is the instance that their
  examples run: a reader for the JSON grammar, for the texts whose numbers are integer
  literals of at most 15 digits (for which ToString gives the literal back) and whose
  four-digit hexadecimal escapes are below 256. It rejects any other text.
\<close>

text \<open>The white space of the JSON grammar.\<close>

definition json_space :: "char \<Rightarrow> bool" where
  "json_space c \<longleftrightarrow> c \<in> {CHR 0x20, CHR 0x09, CHR 0x0A, CHR 0x0D}"

definition skip_space :: "string \<Rightarrow> string" where
  "skip_space s = dropWhile json_space s"

definition is_digit :: "char \<Rightarrow> bool" where
  "is_digit c \<longleftrightarrow> 48 \<le> (of_char c :: nat) \<and> (of_char c :: nat) \<le> 57"

definition hex_value :: "char \<Rightarrow> nat option" where
  "hex_value c =
     (let n = (of_char c :: nat)
      in if 48 \<le> n \<and> n \<le> 57 then Some (n - 48)
         else if 65 \<le> n \<and> n \<le> 70 then Some (n - 55)
         else if 97 \<le> n \<and> n \<le> 102 then Some (n - 87)
         else None)"

text \<open>The character that a backslash escape stands for.\<close>

definition escape :: "char \<Rightarrow> char option" where
  "escape e =
     (if e = CHR 0x22 then Some (CHR 0x22)
      else if e = CHR 0x5C then Some (CHR 0x5C)
      else if e = CHR ''/'' then Some (CHR ''/'')
      else if e = CHR ''b'' then Some (CHR 0x08)
      else if e = CHR ''f'' then Some (CHR 0x0C)
      else if e = CHR ''n'' then Some (CHR 0x0A)
      else if e = CHR ''r'' then Some (CHR 0x0D)
      else if e = CHR ''t'' then Some (CHR 0x09)
      else None)"

definition cons_result :: "'a \<Rightarrow> ('a list \<times> 'b) option \<Rightarrow> ('a list \<times> 'b) option" where
  "cons_result x r = (case r of None \<Rightarrow> None | Some (xs, rest) \<Rightarrow> Some (x # xs, rest))"

text \<open>
  The characters of a string literal after its opening quote, and the text after the closing
  quote. A raw control character is a syntax error.
\<close>

fun read_string :: "string \<Rightarrow> (string \<times> string) option" where
  "read_string [] = None"
| "read_string (c # cs) =
     (if c = CHR 0x22 then Some ([], cs)
      else if c = CHR 0x5C then
        (case cs of
           [] \<Rightarrow> None
         | e # r \<Rightarrow>
             if e = CHR ''u'' then
               (case r of
                  h1 # h2 # h3 # h4 # r' \<Rightarrow>
                    (case (hex_value h1, hex_value h2, hex_value h3, hex_value h4) of
                       (Some a, Some b, Some c', Some d) \<Rightarrow>
                         (if ((a * 16 + b) * 16 + c') * 16 + d < 256
                          then cons_result (char_of (((a * 16 + b) * 16 + c') * 16 + d)) (read_string r')
                          else None)
                     | _ \<Rightarrow> None)
                | _ \<Rightarrow> None)
             else
               (case escape e of
                  None \<Rightarrow> None
                | Some x \<Rightarrow> cons_result x (read_string r)))
      else if (of_char c :: nat) < 32 then None
      else cons_result c (read_string cs))"

text \<open>An integer literal of at most 15 digits; \<open>-0\<close> prints as \<open>0\<close>.\<close>

definition read_number :: "string \<Rightarrow> (json \<times> string) option" where
  "read_number s =
     (let negative = (take 1 s = ''-'');
          t = (if negative then drop 1 s else s);
          digits = takeWhile is_digit t;
          rest = dropWhile is_digit t
      in if digits = [] \<or> 15 < length digits then None
         else if 1 < length digits \<and> take 1 digits = ''0'' then None
         else if take 1 rest \<in> {''.'', ''e'', ''E''} then None
         else if digits = ''0'' then Some (JNum ''0'', rest)
         else Some (JNum ((if negative then ''-'' else []) @ digits), rest))"

text \<open>
  A key that occurs twice in an object keeps its first position and takes its last value.
\<close>

fun set_property :: "string \<Rightarrow> json \<Rightarrow> (string \<times> json) list \<Rightarrow> (string \<times> json) list" where
  "set_property k v [] = [(k, v)]"
| "set_property k v ((k', v') # kvs) =
     (if k = k' then (k, v) # kvs else (k', v') # set_property k v kvs)"

definition create_object :: "(string \<times> json) list \<Rightarrow> json" where
  "create_object members = JObj (foldl (\<lambda>kvs (k, v). set_property k v kvs) [] members)"

text \<open>
  The recursive descent. The first argument bounds the number of values read; \<open>JSON_parse\<close>
  starts it above the length of the text.
\<close>

fun read_value :: "nat \<Rightarrow> string \<Rightarrow> (json \<times> string) option"
  and read_elements :: "nat \<Rightarrow> string \<Rightarrow> (json list \<times> string) option"
  and read_members :: "nat \<Rightarrow> string \<Rightarrow> ((string \<times> json) list \<times> string) option" where
  "read_value 0 s = None"
| "read_value (Suc n) s =
     (case skip_space s of
        [] \<Rightarrow> None
      | c # cs \<Rightarrow>
          if c = CHR ''{'' then
            (if take 1 (skip_space cs) = ''}'' then Some (JObj [], drop 1 (skip_space cs))
             else (case read_members n cs of
                     None \<Rightarrow> None
                   | Some (members, rest) \<Rightarrow> Some (create_object members, rest)))
          else if c = CHR ''['' then
            (if take 1 (skip_space cs) = '']'' then Some (JArr [], drop 1 (skip_space cs))
             else (case read_elements n cs of
                     None \<Rightarrow> None
                   | Some (elements, rest) \<Rightarrow> Some (JArr elements, rest)))
          else if c = CHR 0x22 then
            (case read_string cs of
               None \<Rightarrow> None
             | Some (str, rest) \<Rightarrow> Some (JStr str, rest))
          else if take 4 (c # cs) = ''true'' then Some (JBool True, drop 4 (c # cs))
          else if take 5 (c # cs) = ''false'' then Some (JBool False, drop 5 (c # cs))
          else if take 4 (c # cs) = ''null'' then Some (JNull, drop 4 (c # cs))
          else read_number (c # cs))"
| "read_elements 0 s = None"
| "read_elements (Suc n) s =
     (case read_value n s of
        None \<Rightarrow> None
      | Some (v, rest) \<Rightarrow>
          (case skip_space rest of
             [] \<Rightarrow> None
           | c # cs \<Rightarrow>
               if c = CHR '','' then cons_result v (read_elements n cs)
               else if c = CHR '']'' then Some ([v], cs)
               else None))"
| "read_members 0 s = None"
| "read_members (Suc n) s =
     (case skip_space s of
        [] \<Rightarrow> None
      | q # s1 \<Rightarrow>
          if q = CHR 0x22 then
            (case read_string s1 of
               None \<Rightarrow> None
             | Some (k, s2) \<Rightarrow>
                 (case skip_space s2 of
                    [] \<Rightarrow> None
                  | colon # s3 \<Rightarrow>
                      if colon = CHR '':'' then
                        (case read_value n s3 of
                           None \<Rightarrow> None
                         | Some (v, s4) \<Rightarrow>
                             (case skip_space s4 of
                                [] \<Rightarrow> None
                              | c # cs \<Rightarrow>
                                  if c = CHR '','' then cons_result (k, v) (read_members n cs)
                                  else if c = CHR ''}'' then Some ([(k, v)], cs)
                                  else None))
                      else None))
          else None)"

definition JSON_parse :: "string \<Rightarrow> json option" where
  "JSON_parse s =
     (case read_value (Suc (length s)) s of
        None \<Rightarrow> None
      | Some (v, rest) \<Rightarrow> if skip_space rest = [] then Some v else None)"

section \<open>index.tsx: the envelope stream\<close>

text \<open>
  What \<open>runSearch\<close> reads and writes: the local \<open>jsonBuffer\<close> and the React state it sets.
  The type of a source entry differs between the two files.
\<close>

record 'src search_state =
  jsonBuffer :: string
  leads :: "json list"
  sources :: "'src list"
  error :: "string option"
  isLoading :: bool

text \<open>
  \<open>setSources(prevSources => [...prevSources, ...newChunks])\<close> runs its updater inside React,
  outside the \<open>try\<close> of \<open>runSearch\<close>. When \<open>newChunks\<close> is not iterable the updater throws
  there: \<open>updaterThrew\<close> records it and \<open>sources\<close> stays as it was. What React shows after
  that is outside this model.
\<close>

record envelope_state = "json search_state" +
  updaterThrew :: bool

text \<open>
  The body of the \<open>try\<close> after \<open>const message = JSON.parse(line)\<close> (lines 144 to 164).
  \<open>None\<close>: a TypeError was thrown before any assignment, and the \<open>catch\<close> only logs.
\<close>

definition handle_message :: "parser \<Rightarrow> json \<Rightarrow> envelope_state \<Rightarrow> envelope_state option" where
  "handle_message parse message st =
     (case property message ''type'' of
        None \<Rightarrow> None
      | Some type \<Rightarrow>
          (case property message ''payload'' of
             None \<Rightarrow> None
           | Some payload \<Rightarrow>
               if type = JStr ''content'' \<and> truthy payload then
                 (case toString payload of
                    None \<Rightarrow> None
                  | Some appended \<Rightarrow>
                      (case lead_loop parse (jsonBuffer st @ appended) (leads st) of
                         (jsonBuffer', leads') \<Rightarrow>
                           Some (st\<lparr>jsonBuffer := jsonBuffer', leads := leads'\<rparr>)))
               else if type = JStr ''sources'' \<and> truthy payload then
                 (case spread payload of
                    None \<Rightarrow> Some (st\<lparr>updaterThrew := True\<rparr>)
                  | Some newChunks \<Rightarrow> Some (st\<lparr>sources := sources st @ newChunks\<rparr>))
               else Some st))"

text \<open>
  The \<open>try\<close> around it: \<open>catch (e) { console.warn(...) }\<close> leaves the state as it was.
\<close>

definition receive :: "parser \<Rightarrow> json \<Rightarrow> envelope_state \<Rightarrow> envelope_state" where
  "receive parse message st =
     (case handle_message parse message st of
        None \<Rightarrow> st
      | Some st' \<Rightarrow> st')"

text \<open>
  \<open>if (line) { try { const message = JSON.parse(line); ... } catch (e) { ... } }\<close>
  (lines 140 to 168).
\<close>

definition process_line :: "parser \<Rightarrow> string \<Rightarrow> envelope_state \<Rightarrow> envelope_state" where
  "process_line parse line st =
     (if line \<noteq> [] then
        (case parse line of
           None \<Rightarrow> st
         | Some message \<Rightarrow> receive parse message st)
      else st)"

text \<open>The \<open>while\<close> over \<open>streamBuffer\<close> (lines 136 to 169).\<close>

function stream_loop :: "parser \<Rightarrow> string \<Rightarrow> envelope_state \<Rightarrow> string \<times> envelope_state" where
  "stream_loop parse streamBuffer st =
     (case indexOf streamBuffer nl of
        None \<Rightarrow> (streamBuffer, st)
      | Some newlineIndex \<Rightarrow>
          stream_loop parse
            (substring_from streamBuffer (newlineIndex + 1))
            (process_line parse (trim (substring streamBuffer 0 newlineIndex)) st))"
  by pat_completeness auto

termination stream_loop
  by (relation "measure (\<lambda>(parse, streamBuffer, st). length streamBuffer)")
     (auto simp: substring_from_def dest: indexOf_less)

declare stream_loop.simps [simp del]

text \<open>
  A thrown value: an \<open>Error\<close> with its message, or anything else. The results of
  \<open>await reader.read()\<close>, in order: a fragment of text (the bytes as the \<open>TextDecoder\<close>
  returns them) or a rejection; the end of the list is \<open>done\<close>. The streams modelled are the
  ones that end.
\<close>

datatype thrown = Error string | NotAnError

datatype read_result = Value string | Rejected thrown

text \<open>
  The \<open>while (true)\<close> of lines 129 to 170. It returns the exception that left it, if any,
  with the state reached.
\<close>

fun read_loop ::
  "parser \<Rightarrow> read_result list \<Rightarrow> string \<Rightarrow> envelope_state \<Rightarrow> thrown option \<times> envelope_state" where
  "read_loop parse [] streamBuffer st = (None, st)"
| "read_loop parse (Rejected e # reads) streamBuffer st = (Some e, st)"
| "read_loop parse (Value fragment # reads) streamBuffer st =
     (case stream_loop parse (streamBuffer @ fragment) st of
        (streamBuffer', st') \<Rightarrow> read_loop parse reads streamBuffer' st')"

text \<open>\<open>if (jsonBuffer.trim()) { try { ... } catch (e) { ... } }\<close> after the loop, in both files.\<close>

definition flush :: "parser \<Rightarrow> ('src, 'more) search_state_scheme \<Rightarrow> ('src, 'more) search_state_scheme" where
  "flush parse st =
     (if trim (jsonBuffer st) \<noteq> [] then
        (case parse (trim (jsonBuffer st)) of
           Some parsedLead \<Rightarrow> st\<lparr>leads := leads st @ [parsedLead]\<rparr>
         | None \<Rightarrow> st)
      else st)"

text \<open>\<open>s.includes(p)\<close>.\<close>

fun str_includes :: "string \<Rightarrow> string \<Rightarrow> bool" where
  "str_includes [] p = (p = [])"
| "str_includes (x # xs) p = (take (length p) (x # xs) = p \<or> str_includes xs p)"

text \<open>The message that the \<open>catch\<close> of \<open>runSearch\<close> passes to \<open>setError\<close> (lines 184 to 191).\<close>

fun errorMessage :: "thrown \<Rightarrow> string" where
  "errorMessage (Error message) =
     (if str_includes message ''JSON''
      then ''Failed to process the response. The format might be invalid.''
      else message)"
| "errorMessage NotAnError = ''An unexpected error occurred. Please try again.''"

text \<open>A number in a template string, for a natural number: its decimal digits.\<close>

function decimal :: "nat \<Rightarrow> string" where
  "decimal n =
     (if n < 10 then [char_of (48 + n)]
      else decimal (n div 10) @ [char_of (48 + n mod 10)])"
  by pat_completeness auto

termination decimal
  by (relation "measure (\<lambda>n. n)") auto

declare decimal.simps [simp del]

text \<open>
  The response of \<open>fetch\<close>: \<open>response.text()\<close> gives the text or rejects; \<open>body\<close> is \<open>None\<close>
  when \<open>response.body\<close> is null.
\<close>

record response =
  ok :: bool
  status :: nat
  response_text :: "thrown + string"
  body :: "read_result list option"

text \<open>
  The \<open>try\<close> block of \<open>runSearch\<close> (lines 93 to 180), from the state set at lines 85 to 91.
  The first argument of the result is the exception that left the block.
\<close>

definition try_block ::
  "parser \<Rightarrow> thrown + response \<Rightarrow> envelope_state \<Rightarrow> thrown option \<times> envelope_state" where
  "try_block parse fetched st =
     (case fetched of
        Inl e \<Rightarrow> (Some e, st)
      | Inr response \<Rightarrow>
          if \<not> ok response then
            (case response_text response of
               Inl e \<Rightarrow> (Some e, st)
             | Inr errorText \<Rightarrow>
                 (Some (Error (''Failed to fetch from server: '' @ decimal (status response)
                                 @ '' '' @ errorText)), st))
          else
            (case body response of
               None \<Rightarrow> (Some (Error ''Response body is missing.''), st)
             | Some reads \<Rightarrow>
                 (case read_loop parse reads [] st of
                    (Some e, st') \<Rightarrow> (Some e, st')
                  | (None, st') \<Rightarrow> (None, flush parse st'))))"

text \<open>
  \<open>runSearch\<close> of index.tsx. The state it starts from is set by its first lines, whatever
  the state before. The \<open>finally\<close> block returns \<open>leads\<close> as it finds them; \<open>copied\<close>,
  \<open>lastSearch\<close> and \<open>canSaveSearch\<close> are not modelled.
\<close>

definition initial_state :: envelope_state where
  "initial_state =
     \<lparr>jsonBuffer = [], leads = [], sources = [], error = None, isLoading = True,
      updaterThrew = False\<rparr>"

definition runSearch :: "parser \<Rightarrow> thrown + response \<Rightarrow> envelope_state" where
  "runSearch parse fetched =
     (case try_block parse fetched initial_state of
        (None, st) \<Rightarrow> st\<lparr>isLoading := False\<rparr>
      | (Some err, st) \<Rightarrow> st\<lparr>error := Some (errorMessage err), isLoading := False\<rparr>)"

section \<open>The variant that calls the generation SDK\<close>

text \<open>
  The second file (src/unnamed/part\_000) iterates over the chunks of the SDK's stream.
  A chunk carries \<open>chunk.candidates?.[0]?.groundingMetadata?.groundingChunks\<close> and
  \<open>chunk.text\<close>, each possibly \<open>undefined\<close>.
\<close>

record Web =
  uri :: string
  title :: string

record GroundingChunk =
  web :: "Web option"

record chunk =
  groundingChunks :: "GroundingChunk list option"
  chunk_text :: "string option"

record sdk_state = "GroundingChunk search_state" +
  processedSourceUris :: "string set"

text \<open>\<open>c.web?.uri && !processedSourceUris.has(c.web.uri)\<close>.\<close>

definition is_unique :: "string set \<Rightarrow> GroundingChunk \<Rightarrow> bool" where
  "is_unique seen c =
     (case web c of
        None \<Rightarrow> False
      | Some w \<Rightarrow> uri w \<noteq> [] \<and> uri w \<notin> seen)"

text \<open>\<open>c.web!.uri\<close> for each chunk that passed the filter, so that \<open>web\<close> is there.\<close>

definition uris :: "GroundingChunk list \<Rightarrow> string list" where
  "uris cs = concat (map (\<lambda>c. case web c of None \<Rightarrow> [] | Some w \<Rightarrow> [uri w]) cs)"

text \<open>Lines 147 to 154, for \<open>newChunks\<close> as read from the chunk.\<close>

definition add_sources :: "GroundingChunk list option \<Rightarrow> sdk_state \<Rightarrow> sdk_state" where
  "add_sources newChunks st =
     (case newChunks of
        None \<Rightarrow> st
      | Some chunks \<Rightarrow>
          (let uniqueNewChunks = filter (is_unique (processedSourceUris st)) chunks
           in if length uniqueNewChunks > 0 then
                st\<lparr>processedSourceUris := processedSourceUris st \<union> set (uris uniqueNewChunks),
                   sources := sources st @ uniqueNewChunks\<rparr>
              else st))"

text \<open>Lines 156 to 173, for \<open>text\<close> as read from the chunk.\<close>

definition add_text :: "parser \<Rightarrow> string option \<Rightarrow> sdk_state \<Rightarrow> sdk_state" where
  "add_text parse text' st =
     (case text' of
        None \<Rightarrow> st
      | Some t \<Rightarrow>
          if t \<noteq> [] then
            (case lead_loop parse (jsonBuffer st @ t) (leads st) of
               (jsonBuffer', leads') \<Rightarrow> st\<lparr>jsonBuffer := jsonBuffer', leads := leads'\<rparr>)
          else st)"

text \<open>The items of \<open>for await (const chunk of stream)\<close>: a chunk, or the iteration throws.\<close>

datatype stream_item = Chunk chunk | Throws thrown

fun for_await :: "parser \<Rightarrow> stream_item list \<Rightarrow> sdk_state \<Rightarrow> thrown option \<times> sdk_state" where
  "for_await parse [] st = (None, st)"
| "for_await parse (Throws e # items) st = (Some e, st)"
| "for_await parse (Chunk c # items) st =
     for_await parse items (add_text parse (chunk_text c) (add_sources (groundingChunks c) st))"

fun errorMessage_sdk :: "thrown \<Rightarrow> string" where
  "errorMessage_sdk (Error message) = message"
| "errorMessage_sdk NotAnError =
     ''An unexpected error occurred. Please check the console and your API key.''"

definition initial_sdk_state :: sdk_state where
  "initial_sdk_state =
     \<lparr>jsonBuffer = [], leads = [], sources = [], error = None, isLoading = True,
      processedSourceUris = {}\<rparr>"

text \<open>
  \<open>runSearch\<close> of the second file: \<open>apiKey\<close>, and what \<open>generateContentStream\<close> gives: the
  items of the stream, or a rejection.
\<close>

definition runSearch_sdk :: "parser \<Rightarrow> string \<Rightarrow> thrown + stream_item list \<Rightarrow> sdk_state" where
  "runSearch_sdk parse apiKey generated =
     (if apiKey = [] then
        initial_sdk_state
          \<lparr>error := Some ''API Key is not set. Please set your API key above.'',
           isLoading := False\<rparr>
      else
        (case (case generated of
                 Inl e \<Rightarrow> (Some e, initial_sdk_state)
               | Inr items \<Rightarrow>
                   (case for_await parse items initial_sdk_state of
                      (Some e, st) \<Rightarrow> (Some e, st)
                    | (None, st) \<Rightarrow> (None, flush parse st))) of
           (None, st) \<Rightarrow> st\<lparr>isLoading := False\<rparr>
         | (Some err, st) \<Rightarrow> st\<lparr>error := Some (errorMessage_sdk err), isLoading := False\<rparr>))"

section \<open>The lines of a buffer\<close>

text \<open>
  What the two \<open>while\<close> loops compute, as functions of the text: the lines that end in a
  newline, and the text after the last newline. \<open>cur\<close> is the text of the line so far.
\<close>

fun lines_from :: "string \<Rightarrow> string \<Rightarrow> string list" where
  "lines_from cur [] = []"
| "lines_from cur (c # cs) = (if c = nl then cur # lines_from [] cs else lines_from (cur @ [c]) cs)"

fun rest_from :: "string \<Rightarrow> string \<Rightarrow> string" where
  "rest_from cur [] = cur"
| "rest_from cur (c # cs) = (if c = nl then rest_from [] cs else rest_from (cur @ [c]) cs)"

text \<open>The leads, and the state, after a list of lines.\<close>

definition leads_of_lines :: "parser \<Rightarrow> json list \<Rightarrow> string list \<Rightarrow> json list" where
  "leads_of_lines parse acc0 ls = foldl (\<lambda>acc l. parse_lead parse (trim l) acc) acc0 ls"

definition state_of_lines :: "parser \<Rightarrow> envelope_state \<Rightarrow> string list \<Rightarrow> envelope_state" where
  "state_of_lines parse st ls = foldl (\<lambda>acc l. process_line parse (trim l) acc) st ls"

text \<open>\<open>chunk.text\<close>, with \<open>undefined\<close> read as no text.\<close>

definition text_of :: "chunk \<Rightarrow> string" where
  "text_of c = (case chunk_text c of None \<Rightarrow> [] | Some t \<Rightarrow> t)"

text \<open>A chunk of the SDK's stream that carries text only, and a content envelope as parsed.\<close>

definition text_chunk :: "string \<Rightarrow> stream_item" where
  "text_chunk t = Chunk \<lparr>groundingChunks = None, chunk_text = Some t\<rparr>"

definition content_message :: "string \<Rightarrow> json" where
  "content_message p = JObj [(''type'', JStr ''content''), (''payload'', JStr p)]"

text \<open>
  What a line, or the text left at completion, adds to the leads: the value it parses to
  when it is not empty after trimming and \<open>JSON.parse\<close> accepts it.
\<close>

definition parsed_line :: "parser \<Rightarrow> string \<Rightarrow> json option" where
  "parsed_line parse l = (if trim l \<noteq> [] then parse (trim l) else None)"

section \<open>The loops in terms of lines\<close>

lemma indexOf_None: "indexOf s c = None \<longleftrightarrow> c \<notin> set s"
  by (induction s) auto

lemma indexOf_append: "c \<notin> set b \<Longrightarrow> indexOf (b @ c # cs) c = Some (length b)"
  by (induction b) auto

lemma substring_prefix: "substring (b @ s) 0 (length b) = b"
  by (simp add: substring_def)

lemma lines_from_append:
  "lines_from b (s @ t) = lines_from b s @ lines_from (rest_from b s) t"
  by (induction s arbitrary: b) auto

lemma rest_from_append: "rest_from b (s @ t) = rest_from (rest_from b s) t"
  by (induction s arbitrary: b) auto

lemma rest_from_no_nl: "nl \<notin> set b \<Longrightarrow> nl \<notin> set (rest_from b s)"
  by (induction s arbitrary: b) auto

lemma lines_from_no_nl: "nl \<notin> set s \<Longrightarrow> lines_from b s = []"
  by (induction s arbitrary: b) auto

lemma rest_from_no_nl_id: "nl \<notin> set s \<Longrightarrow> rest_from b s = b @ s"
  by (induction s arbitrary: b) auto

lemma lines_from_line: "nl \<notin> set l \<Longrightarrow> lines_from b (l @ nl # s) = (b @ l) # lines_from [] s"
  by (induction l arbitrary: b) auto

lemma rest_from_line: "nl \<notin> set l \<Longrightarrow> rest_from b (l @ nl # s) = rest_from [] s"
  by (induction l arbitrary: b) auto

lemma lead_loop_lines:
  "nl \<notin> set b \<Longrightarrow>
   lead_loop parse (b @ s) acc0 = (rest_from b s, leads_of_lines parse acc0 (lines_from b s))"
proof (induction s arbitrary: b acc0)
  case Nil
  then have "indexOf b nl = None" by (simp add: indexOf_None)
  then show ?case by (subst lead_loop.simps) (simp add: leads_of_lines_def)
next
  case (Cons c cs)
  show ?case
  proof (cases "c = nl")
    case True
    have idx: "indexOf (b @ c # cs) nl = Some (length b)"
      using Cons.prems True by (simp add: indexOf_append)
    have "lead_loop parse (b @ c # cs) acc0 =
          lead_loop parse ([] @ cs) (parse_lead parse (trim b) acc0)"
      by (subst lead_loop.simps) (simp add: idx substring_prefix substring_from_def)
    also have "\<dots> = (rest_from [] cs,
                     leads_of_lines parse (parse_lead parse (trim b) acc0) (lines_from [] cs))"
      by (rule Cons.IH) simp
    finally show ?thesis using True by (simp add: leads_of_lines_def)
  next
    case False
    have "lead_loop parse ((b @ [c]) @ cs) acc0 =
          (rest_from (b @ [c]) cs, leads_of_lines parse acc0 (lines_from (b @ [c]) cs))"
      by (rule Cons.IH) (use Cons.prems False in auto)
    then show ?thesis using False by simp
  qed
qed

lemma stream_loop_lines:
  "nl \<notin> set b \<Longrightarrow>
   stream_loop parse (b @ s) st = (rest_from b s, state_of_lines parse st (lines_from b s))"
proof (induction s arbitrary: b st)
  case Nil
  then have "indexOf b nl = None" by (simp add: indexOf_None)
  then show ?case by (subst stream_loop.simps) (simp add: state_of_lines_def)
next
  case (Cons c cs)
  show ?case
  proof (cases "c = nl")
    case True
    have idx: "indexOf (b @ c # cs) nl = Some (length b)"
      using Cons.prems True by (simp add: indexOf_append)
    have "stream_loop parse (b @ c # cs) st =
          stream_loop parse ([] @ cs) (process_line parse (trim b) st)"
      by (subst stream_loop.simps) (simp add: idx substring_prefix substring_from_def)
    also have "\<dots> = (rest_from [] cs,
                     state_of_lines parse (process_line parse (trim b) st) (lines_from [] cs))"
      by (rule Cons.IH) simp
    finally show ?thesis using True by (simp add: state_of_lines_def)
  next
    case False
    have "stream_loop parse ((b @ [c]) @ cs) st =
          (rest_from (b @ [c]) cs, state_of_lines parse st (lines_from (b @ [c]) cs))"
      by (rule Cons.IH) (use Cons.prems False in auto)
    then show ?thesis using False by simp
  qed
qed

lemma leads_of_lines_append:
  "leads_of_lines parse acc0 (xs @ ys) = leads_of_lines parse (leads_of_lines parse acc0 xs) ys"
  by (simp add: leads_of_lines_def)

lemma state_of_lines_append:
  "state_of_lines parse st (xs @ ys) = state_of_lines parse (state_of_lines parse st xs) ys"
  by (simp add: state_of_lines_def)

lemma read_loop_values:
  "nl \<notin> set b \<Longrightarrow>
   read_loop parse (map Value frags) b st =
     (None, state_of_lines parse st (lines_from b (concat frags)))"
proof (induction frags arbitrary: b st)
  case Nil
  then show ?case by (simp add: state_of_lines_def)
next
  case (Cons f fs)
  then show ?case
    by (simp add: stream_loop_lines rest_from_no_nl lines_from_append state_of_lines_append)
qed

lemma add_text_lines:
  assumes "nl \<notin> set (jsonBuffer st)"
  shows "add_text parse (chunk_text c) st =
         st\<lparr>jsonBuffer := rest_from (jsonBuffer st) (text_of c),
            leads := leads_of_lines parse (leads st) (lines_from (jsonBuffer st) (text_of c))\<rparr>"
  using assms
  by (auto simp: add_text_def text_of_def lead_loop_lines leads_of_lines_def split: option.splits)

lemma add_sources_update:
  "add_sources g (st\<lparr>jsonBuffer := b, leads := ls\<rparr>) = (add_sources g st)\<lparr>jsonBuffer := b, leads := ls\<rparr>"
  by (simp add: add_sources_def Let_def split: option.splits)

lemma add_sources_keeps:
  "jsonBuffer (add_sources g st) = jsonBuffer st" "leads (add_sources g st) = leads st"
  by (simp_all add: add_sources_def Let_def split: option.splits)

lemma all_sources_update:
  "foldl (\<lambda>acc g. add_sources g acc) (st\<lparr>jsonBuffer := b, leads := ls\<rparr>) gs =
   (foldl (\<lambda>acc g. add_sources g acc) st gs)\<lparr>jsonBuffer := b, leads := ls\<rparr>"
  by (induction gs arbitrary: st) (simp_all add: add_sources_update)

lemma all_sources_keeps:
  "jsonBuffer (foldl (\<lambda>acc g. add_sources g acc) st gs) = jsonBuffer st"
  "leads (foldl (\<lambda>acc g. add_sources g acc) st gs) = leads st"
  by (induction gs arbitrary: st) (simp_all add: add_sources_keeps)

lemma for_await_chunks:
  "nl \<notin> set (jsonBuffer st) \<Longrightarrow>
   for_await parse (map Chunk cs) st =
     (None, (foldl (\<lambda>acc g. add_sources g acc) st (map groundingChunks cs))
              \<lparr>jsonBuffer := rest_from (jsonBuffer st) (concat (map text_of cs)),
               leads := leads_of_lines parse (leads st)
                          (lines_from (jsonBuffer st) (concat (map text_of cs)))\<rparr>)"
proof (induction cs arbitrary: st)
  case Nil
  then show ?case by (simp add: leads_of_lines_def)
next
  case (Cons c cs)
  let ?s1 = "add_sources (groundingChunks c) st"
  let ?st = "add_text parse (chunk_text c) ?s1"
  have b: "nl \<notin> set (jsonBuffer ?s1)"
    using Cons.prems by (simp add: add_sources_keeps)
  have st: "?st = ?s1\<lparr>jsonBuffer := rest_from (jsonBuffer st) (text_of c),
            leads := leads_of_lines parse (leads st) (lines_from (jsonBuffer st) (text_of c))\<rparr>"
    using add_text_lines [OF b, of parse c] by (simp add: add_sources_keeps)
  have nb: "nl \<notin> set (jsonBuffer ?st)"
    unfolding st using Cons.prems by (simp add: rest_from_no_nl)
  have "for_await parse (map Chunk (c # cs)) st = for_await parse (map Chunk cs) ?st"
    by simp
  also have "\<dots> = (None, (foldl (\<lambda>acc g. add_sources g acc) ?st (map groundingChunks cs))
              \<lparr>jsonBuffer := rest_from (jsonBuffer ?st) (concat (map text_of cs)),
               leads := leads_of_lines parse (leads ?st)
                          (lines_from (jsonBuffer ?st) (concat (map text_of cs)))\<rparr>)"
    by (rule Cons.IH [OF nb])
  finally show ?case
    unfolding st
    by (simp add: all_sources_update lines_from_append rest_from_append leads_of_lines_append)
qed

lemma flush_leads: "leads (flush parse st) = parse_lead parse (trim (jsonBuffer st)) (leads st)"
  by (simp add: flush_def parse_lead_def split: option.splits)

lemma runSearch_sdk_chunks:
  assumes "apiKey \<noteq> []"
  shows "runSearch_sdk parse apiKey (Inr (map Chunk cs)) =
         (flush parse
            ((foldl (\<lambda>acc g. add_sources g acc) initial_sdk_state (map groundingChunks cs))
               \<lparr>jsonBuffer := rest_from [] (concat (map text_of cs)),
                leads := leads_of_lines parse [] (lines_from [] (concat (map text_of cs)))\<rparr>))
           \<lparr>isLoading := False\<rparr>"
proof -
  have "nl \<notin> set (jsonBuffer initial_sdk_state)"
    by (simp add: initial_sdk_state_def)
  from for_await_chunks [OF this, of parse cs] assms show ?thesis
    by (simp add: runSearch_sdk_def initial_sdk_state_def)
qed

lemma runSearch_sdk_leads:
  assumes "apiKey \<noteq> []"
  shows "leads (runSearch_sdk parse apiKey (Inr (map Chunk cs))) =
         parse_lead parse (trim (rest_from [] (concat (map text_of cs))))
           (leads_of_lines parse [] (lines_from [] (concat (map text_of cs))))"
  by (simp add: runSearch_sdk_chunks [OF assms] flush_leads)

lemma runSearch_sdk_no_key:
  "leads (runSearch_sdk parse [] generated) = []"
  by (simp add: runSearch_sdk_def initial_sdk_state_def)

lemma runSearch_values:
  "runSearch parse (Inr \<lparr>ok = True, status = n, response_text = t, body = Some (map Value frags)\<rparr>) =
   (flush parse (state_of_lines parse initial_state (lines_from [] (concat frags))))
     \<lparr>isLoading := False\<rparr>"
  by (simp add: runSearch_def try_block_def read_loop_values)

lemma handle_content:
  assumes "nl \<notin> set (jsonBuffer st)"
  shows "receive parse (content_message p) st =
         st\<lparr>jsonBuffer := rest_from (jsonBuffer st) p,
            leads := leads_of_lines parse (leads st) (lines_from (jsonBuffer st) p)\<rparr>"
proof (cases "p = []")
  case True
  then show ?thesis
    by (simp add: receive_def handle_message_def content_message_def leads_of_lines_def)
next
  case False
  then show ?thesis
    using assms
    by (simp add: receive_def handle_message_def content_message_def lead_loop_lines)
qed

lemma receive_contents:
  "nl \<notin> set (jsonBuffer st) \<Longrightarrow>
   foldl (\<lambda>acc p. receive parse (content_message p) acc) st ps =
   st\<lparr>jsonBuffer := rest_from (jsonBuffer st) (concat ps),
      leads := leads_of_lines parse (leads st) (lines_from (jsonBuffer st) (concat ps))\<rparr>"
proof (induction ps arbitrary: st)
  case Nil
  then show ?case by (simp add: leads_of_lines_def)
next
  case (Cons p ps)
  let ?st = "st\<lparr>jsonBuffer := rest_from (jsonBuffer st) p,
      leads := leads_of_lines parse (leads st) (lines_from (jsonBuffer st) p)\<rparr>"
  have "nl \<notin> set (jsonBuffer ?st)"
    using Cons.prems by (simp add: rest_from_no_nl)
  from Cons.IH [OF this] Cons.prems show ?case
    by (simp add: handle_content rest_from_append lines_from_append leads_of_lines_append)
qed

lemma rest_from_boundary: "pre = [] \<or> last pre = nl \<Longrightarrow> rest_from [] pre = []"
proof (cases "pre = []")
  case True
  then show ?thesis by simp
next
  case False
  assume "pre = [] \<or> last pre = nl"
  with False have "pre = butlast pre @ [nl]"
    by (metis append_butlast_last_id)
  then have "rest_from [] pre = rest_from [] (butlast pre @ [nl])" by simp
  also have "\<dots> = []" by (simp only: rest_from_append) simp
  finally show ?thesis .
qed

lemma lines_after_boundary:
  assumes "pre = [] \<or> last pre = nl"
  shows "lines_from [] (pre @ s) = lines_from [] pre @ lines_from [] s"
    and "rest_from [] (pre @ s) = rest_from [] s"
  using rest_from_boundary [OF assms] by (simp_all add: lines_from_append rest_from_append)

lemma lines_with_line:
  assumes "pre = [] \<or> last pre = nl" and "nl \<notin> set l"
  shows "lines_from [] (pre @ l @ [nl] @ post) = lines_from [] pre @ l # lines_from [] post"
    and "rest_from [] (pre @ l @ [nl] @ post) = rest_from [] post"
  using assms(2) lines_from_line [of l "[]" post] rest_from_line [of l "[]" post]
  by (simp_all add: lines_after_boundary [OF assms(1)])



lemma leads_skip_line:
  assumes "pre = [] \<or> last pre = nl" and "nl \<notin> set l"
    and "\<And>acc. parse_lead parse (trim l) acc = acc"
  shows "leads_of_lines parse acc0 (lines_from [] (pre @ l @ [nl] @ post)) =
         leads_of_lines parse acc0 (lines_from [] (pre @ post))"
  using assms(2,3)
  by (simp add: lines_after_boundary [OF assms(1)] lines_from_line leads_of_lines_def)

lemma state_skip_line:
  assumes "pre = [] \<or> last pre = nl" and "nl \<notin> set l"
    and "\<And>st. process_line parse (trim l) st = st"
  shows "state_of_lines parse st0 (lines_from [] (pre @ l @ [nl] @ post)) =
         state_of_lines parse st0 (lines_from [] (pre @ post))"
  using assms(2,3)
  by (simp add: lines_after_boundary [OF assms(1)] lines_from_line state_of_lines_def)

lemma run_text_chunk:
  "runSearch_sdk parse apiKey (Inr [text_chunk t]) =
   (if apiKey = [] then
      initial_sdk_state\<lparr>error := Some ''API Key is not set. Please set your API key above.'',
                         isLoading := False\<rparr>
    else (flush parse (initial_sdk_state
            \<lparr>jsonBuffer := rest_from [] t,
             leads := leads_of_lines parse [] (lines_from [] t)\<rparr>))\<lparr>isLoading := False\<rparr>)"
proof (cases "apiKey = []")
  case True
  then show ?thesis by (simp add: runSearch_sdk_def)
next
  case False
  have "runSearch_sdk parse apiKey (Inr (map Chunk [\<lparr>groundingChunks = None, chunk_text = Some t\<rparr>])) =
        (flush parse (initial_sdk_state
            \<lparr>jsonBuffer := rest_from [] t,
             leads := leads_of_lines parse [] (lines_from [] t)\<rparr>))\<lparr>isLoading := False\<rparr>"
    unfolding runSearch_sdk_chunks [OF False]
    by (simp add: text_of_def add_sources_def)
  with False show ?thesis by (simp add: text_chunk_def)
qed

lemma run_content:
  "flush parse (receive parse (content_message p) initial_state) =
   flush parse (initial_state\<lparr>jsonBuffer := rest_from [] p,
                              leads := leads_of_lines parse [] (lines_from [] p)\<rparr>)"
proof -
  have i: "nl \<notin> set (jsonBuffer initial_state)" by (simp add: initial_state_def)
  show ?thesis by (simp add: handle_content [OF i]) (simp add: initial_state_def)
qed

lemma run_value:
  "runSearch parse (Inr \<lparr>ok = True, status = n, response_text = t, body = Some [Value v]\<rparr>) =
   (flush parse (state_of_lines parse initial_state (lines_from [] v)))\<lparr>isLoading := False\<rparr>"
  using runSearch_values [of parse n t "[v]"] by simp

lemma lines_terminated:
  "\<forall>l\<in>set ls. nl \<notin> set l \<Longrightarrow>
   lines_from [] (concat (map (\<lambda>l. l @ [nl]) ls)) = ls \<and>
   rest_from [] (concat (map (\<lambda>l. l @ [nl]) ls)) = []"
  by (induction ls) (simp_all add: lines_from_line rest_from_line)


lemma read_loop_rejected:
  "nl \<notin> set b \<Longrightarrow>
   read_loop parse (map Value frags @ Rejected e # rest) b st =
     (Some e, snd (read_loop parse (map Value frags) b st))"
proof (induction frags arbitrary: b st)
  case Nil
  then show ?case by simp
next
  case (Cons f fs)
  then show ?case by (simp add: stream_loop_lines rest_from_no_nl)
qed

lemma for_await_throws:
  "for_await parse (map Chunk cs @ Throws e # rest) st =
     (Some e, snd (for_await parse (map Chunk cs) st))"
  by (induction cs arbitrary: st) simp_all

lemma receive_sources:
  assumes "property message ''type'' = Some (JStr ''sources'')"
    and "property message ''payload'' = Some (JArr entries)"
  shows "receive parse message st = st\<lparr>sources := sources st @ entries\<rparr>"
  using assms by (simp add: receive_def handle_message_def)

lemma same_batch_twice:
  assumes "web c = Some w" and "uri w \<noteq> []"
  shows "sources (snd (for_await parse
                         [Chunk \<lparr>groundingChunks = Some [c], chunk_text = t1\<rparr>,
                          Chunk \<lparr>groundingChunks = Some [c], chunk_text = t2\<rparr>]
                         initial_sdk_state)) = [c]"
proof -
  have i: "nl \<notin> set (jsonBuffer initial_sdk_state)" by (simp add: initial_sdk_state_def)
  have "for_await parse
          (map Chunk [\<lparr>groundingChunks = Some [c], chunk_text = t1\<rparr>,
                      \<lparr>groundingChunks = Some [c], chunk_text = t2\<rparr>])
          initial_sdk_state =
        (None, (foldl (\<lambda>acc g. add_sources g acc) initial_sdk_state [Some [c], Some [c]])
                 \<lparr>jsonBuffer := rest_from (jsonBuffer initial_sdk_state)
                      (concat (map text_of [\<lparr>groundingChunks = Some [c], chunk_text = t1\<rparr>,
                                            \<lparr>groundingChunks = Some [c], chunk_text = t2\<rparr>])),
                  leads := leads_of_lines parse (leads initial_sdk_state)
                      (lines_from (jsonBuffer initial_sdk_state)
                      (concat (map text_of [\<lparr>groundingChunks = Some [c], chunk_text = t1\<rparr>,
                                            \<lparr>groundingChunks = Some [c], chunk_text = t2\<rparr>])))\<rparr>)"
    using for_await_chunks [OF i, of parse "[\<lparr>groundingChunks = Some [c], chunk_text = t1\<rparr>,
                      \<lparr>groundingChunks = Some [c], chunk_text = t2\<rparr>]"] by simp
  moreover have "sources (foldl (\<lambda>acc g. add_sources g acc) initial_sdk_state [Some [c], Some [c]]) = [c]"
    using assms by (simp add: add_sources_def is_unique_def uris_def initial_sdk_state_def)
  ultimately show ?thesis by simp
qed

lemma sources_line:
  \<open>JSON_parse ''{"type":"sources","payload":[{"web":{"uri":"http://a","title":"A"}}]}'' =
   Some (JObj [(''type'', JStr ''sources''),
               (''payload'', JArr [JObj [(''web'', JObj [(''uri'', JStr ''http://a''),
                                                         (''title'', JStr ''A'')])]])])\<close>
  by code_simp

lemma run_one_line:
  assumes "nl \<notin> set e"
  shows "runSearch parse
           (Inr \<lparr>ok = True, status = n, response_text = t, body = Some [Value (e @ [nl])]\<rparr>) =
         (flush parse (process_line parse (trim e) initial_state))\<lparr>isLoading := False\<rparr>"
proof -
  have "lines_from [] (e @ [nl]) = [e]"
    using lines_from_line [OF assms, of "[]" "[]"] by simp
  then show ?thesis by (simp add: run_value state_of_lines_def)
qed

lemma content_line:
  \<open>JSON_parse ''{"type":"content","payload":"{}"}'' = Some (content_message ''{}'')\<close>
  unfolding content_message_def by code_simp

lemma empty_object: "JSON_parse ''{}'' = Some (JObj [])"
  by code_simp

lemma empty_payload_line:
  \<open>JSON_parse ''{"type":"content","payload":""}'' =
   Some (JObj [(''type'', JStr ''content''), (''payload'', JStr [])])\<close>
  by code_simp

lemma other_type_line:
  \<open>JSON_parse ''{"type":"ping","payload":"{}"}'' =
   Some (JObj [(''type'', JStr ''ping''), (''payload'', JStr ''{}'')])\<close>
  by code_simp

lemma parse_lead_parsed:
  "parse_lead parse (trim l) acc = acc @ List.map_filter (parsed_line parse) [l]"
  by (simp add: parse_lead_def parsed_line_def List.map_filter_simps split: option.splits)

lemma map_filter_app:
  "List.map_filter f (xs @ ys) = List.map_filter f xs @ List.map_filter f ys"
  by (simp add: List.map_filter_def)

lemma leads_of_lines_parsed:
  "leads_of_lines parse acc ls = acc @ List.map_filter (parsed_line parse) ls"
proof (induction ls arbitrary: acc)
  case Nil
  then show ?case by (simp add: leads_of_lines_def List.map_filter_simps)
next
  case (Cons l ls)
  have "leads_of_lines parse acc (l # ls) = leads_of_lines parse (parse_lead parse (trim l) acc) ls"
    by (simp add: leads_of_lines_def)
  also have "\<dots> = parse_lead parse (trim l) acc @ List.map_filter (parsed_line parse) ls"
    by (rule Cons.IH)
  also have "\<dots> = acc @ List.map_filter (parsed_line parse) ([l] @ ls)"
    unfolding parse_lead_parsed map_filter_app by simp
  finally show ?case by simp
qed

lemma lines_with_residual:
  assumes "\<forall>g\<in>set ls. nl \<notin> set g" and "nl \<notin> set r"
  shows "lines_from [] (concat (map (\<lambda>g. g @ [nl]) ls) @ r) = ls"
    and "rest_from [] (concat (map (\<lambda>g. g @ [nl]) ls) @ r) = r"
  using lines_terminated [OF assms(1)] assms(2)
  by (simp_all add: lines_from_append rest_from_append lines_from_no_nl rest_from_no_nl_id)

lemma leads_of_text:
  assumes "\<forall>g\<in>set ls. nl \<notin> set g" and "nl \<notin> set r"
  shows "apiKey \<noteq> [] \<Longrightarrow>
         leads (runSearch_sdk parse apiKey
                  (Inr [text_chunk (concat (map (\<lambda>g. g @ [nl]) ls) @ r)])) =
         List.map_filter (parsed_line parse) (ls @ [r])"
    and "leads (flush parse
                  (receive parse (content_message (concat (map (\<lambda>g. g @ [nl]) ls) @ r))
                     initial_state)) =
         List.map_filter (parsed_line parse) (ls @ [r])"
  by (simp_all add: run_text_chunk run_content flush_leads lines_with_residual [OF assms]
      leads_of_lines_parsed parse_lead_parsed map_filter_app)

lemma process_line_error: "error (process_line parse line st) = error st"
  by (auto simp: process_line_def receive_def handle_message_def
      split: option.splits prod.splits if_splits)

lemma state_of_lines_error: "error (state_of_lines parse st ls) = error st"
  unfolding state_of_lines_def
  by (induction ls arbitrary: st) (simp_all add: process_line_error)

lemma flush_error: "error (flush parse st) = error st"
  by (simp add: flush_def split: option.splits)

lemma add_sources_error: "error (add_sources g st) = error st"
  by (simp add: add_sources_def Let_def split: option.splits)

lemma all_sources_error: "error (foldl (\<lambda>acc g. add_sources g acc) st gs) = error st"
  by (induction gs arbitrary: st) (simp_all add: add_sources_error)

lemma no_error_from_text:
  "apiKey \<noteq> [] \<Longrightarrow> error (runSearch_sdk parse apiKey (Inr (map Chunk cs))) = None"
  "error (runSearch parse
            (Inr \<lparr>ok = True, status = n, response_text = t, body = Some (map Value frags)\<rparr>)) =
   None"
  by (simp_all add: runSearch_sdk_chunks runSearch_values flush_error all_sources_error
      state_of_lines_error initial_sdk_state_def initial_state_def)

lemma run_two_lines:
  assumes "nl \<notin> set l" and "nl \<notin> set e"
  shows "runSearch parse
           (Inr \<lparr>ok = True, status = n, response_text = t,
                 body = Some [Value (l @ [nl] @ e @ [nl])]\<rparr>) =
         (flush parse (process_line parse (trim e) (process_line parse (trim l) initial_state)))
           \<lparr>isLoading := False\<rparr>"
proof -
  have "\<forall>g\<in>set [l, e]. nl \<notin> set g" using assms by simp
  from lines_terminated [OF this] have "lines_from [] (l @ [nl] @ e @ [nl]) = [l, e]"
    by simp
  then show ?thesis by (simp add: run_value state_of_lines_def)
qed

section \<open>Chunking\<close>

text \<open>
  C1. Chunking invariance. However a payload is split into fragments, the leads at the end
  (after the flush) are those of the payload fed as one fragment: for the chunks of the SDK's
  stream, whatever else they carry; for the fragments read from the response body of
  index.tsx, where the whole final state is the same; and for a payload split over the
  content envelopes of index.tsx.
\<close>

theorem chunking_invariance:
  "leads (runSearch_sdk parse apiKey (Inr (map Chunk cs))) =
   leads (runSearch_sdk parse apiKey
            (Inr [text_chunk (concat (map text_of cs))]))
   \<and> runSearch parse
        (Inr \<lparr>ok = True, status = n, response_text = t, body = Some (map Value frags)\<rparr>) =
     runSearch parse
        (Inr \<lparr>ok = True, status = n, response_text = t, body = Some [Value (concat frags)]\<rparr>)
   \<and> flush parse (foldl (\<lambda>acc p. receive parse (content_message p) acc) initial_state ps) =
     flush parse (receive parse (content_message (concat ps)) initial_state)"
proof (intro conjI)
  show "leads (runSearch_sdk parse apiKey (Inr (map Chunk cs))) =
   leads (runSearch_sdk parse apiKey
            (Inr [text_chunk (concat (map text_of cs))]))"
  proof (cases "apiKey = []")
    case True
    then show ?thesis by (simp add: runSearch_sdk_no_key)
  next
    case False
    have "leads (runSearch_sdk parse apiKey
            (Inr (map Chunk [\<lparr>groundingChunks = None, chunk_text = Some (concat (map text_of cs))\<rparr>]))) =
          leads (runSearch_sdk parse apiKey (Inr (map Chunk cs)))"
      unfolding runSearch_sdk_leads [OF False] by (simp add: text_of_def)
    then show ?thesis by (simp add: text_chunk_def)
  qed
  have "runSearch parse
        (Inr \<lparr>ok = True, status = n, response_text = t, body = Some (map Value [concat frags])\<rparr>) =
     runSearch parse
        (Inr \<lparr>ok = True, status = n, response_text = t, body = Some (map Value frags)\<rparr>)"
    unfolding runSearch_values by simp
  then show "runSearch parse
        (Inr \<lparr>ok = True, status = n, response_text = t, body = Some (map Value frags)\<rparr>) =
     runSearch parse
        (Inr \<lparr>ok = True, status = n, response_text = t, body = Some [Value (concat frags)]\<rparr>)"
    by simp
  have i: "nl \<notin> set (jsonBuffer initial_state)" by (simp add: initial_state_def)
  show "flush parse (foldl (\<lambda>acc p. receive parse (content_message p) acc) initial_state ps) =
     flush parse (receive parse (content_message (concat ps)) initial_state)"
    by (simp add: receive_contents [OF i] handle_content [OF i])
qed

text \<open>
  C2. A record that straddles two fragments is parsed once, when its newline arrives: after
  the first fragment no lead has been appended, and after both the leads are the two
  records, in order. The fragments are the texts of two chunks of the SDK's stream, or the
  payloads of two content envelopes of index.tsx.
\<close>

theorem straddling_record:
  assumes "apiKey \<noteq> []"
    and \<open>parse ''{"name":"A","address":"x"}'' = Some a\<close>
    and \<open>parse ''{"name":"B","address":"y"}'' = Some b\<close>
  shows \<open>leads (snd (for_await parse [text_chunk ''{"name":"A"''] initial_sdk_state)) = []
    \<and> leads (runSearch_sdk parse apiKey
         (Inr [text_chunk ''{"name":"A"'',
               text_chunk '',"address":"x"}\<newline>{"name":"B","address":"y"}\<newline>''])) = [a, b]
    \<and> leads (receive parse (content_message ''{"name":"A"'') initial_state) = []
    \<and> leads (flush parse
         (foldl (\<lambda>acc p. receive parse (content_message p) acc) initial_state
            [''{"name":"A"'', '',"address":"x"}\<newline>{"name":"B","address":"y"}\<newline>''])) =
       [a, b]\<close>
proof -
  let ?c1 = \<open>\<lparr>groundingChunks = None, chunk_text = Some ''{"name":"A"''\<rparr>\<close>
  let ?c2 = \<open>\<lparr>groundingChunks = None,
              chunk_text = Some '',"address":"x"}\<newline>{"name":"B","address":"y"}\<newline>''\<rparr>\<close>
  have i: "nl \<notin> set (jsonBuffer initial_sdk_state)" by (simp add: initial_sdk_state_def)
  have j: "nl \<notin> set (jsonBuffer initial_state)" by (simp add: initial_state_def)
  have 1: "leads (snd (for_await parse (map Chunk [?c1]) initial_sdk_state)) = []"
    unfolding for_await_chunks [OF i]
    by (simp add: text_of_def initial_sdk_state_def leads_of_lines_def)
  have 2: "leads (runSearch_sdk parse apiKey (Inr (map Chunk [?c1, ?c2]))) = [a, b]"
    unfolding runSearch_sdk_leads [OF assms(1)]
    using assms(2,3)
    by (simp add: text_of_def leads_of_lines_def parse_lead_def trim_def is_space_def)
  have 3: \<open>leads (receive parse (content_message ''{"name":"A"'') initial_state) = []\<close>
    unfolding handle_content [OF j]
    by (simp add: initial_state_def leads_of_lines_def)
  have 4: \<open>leads (flush parse
         (foldl (\<lambda>acc p. receive parse (content_message p) acc) initial_state
            [''{"name":"A"'', '',"address":"x"}\<newline>{"name":"B","address":"y"}\<newline>''])) =
       [a, b]\<close>
    unfolding receive_contents [OF j] flush_leads
    using assms(2,3)
    by (simp add: initial_state_def leads_of_lines_def parse_lead_def trim_def is_space_def)
  from 1 2 3 4 show ?thesis by (simp add: text_chunk_def)
qed

theorem straddling_record_witness:
  \<open>leads (snd (for_await JSON_parse [text_chunk ''{"name":"A"''] initial_sdk_state)) = []
    \<and> leads (runSearch_sdk JSON_parse ''key''
         (Inr [text_chunk ''{"name":"A"'',
               text_chunk '',"address":"x"}\<newline>{"name":"B","address":"y"}\<newline>''])) =
       [JObj [(''name'', JStr ''A''), (''address'', JStr ''x'')],
        JObj [(''name'', JStr ''B''), (''address'', JStr ''y'')]]
    \<and> leads (receive JSON_parse (content_message ''{"name":"A"'') initial_state) = []
    \<and> leads (flush JSON_parse
         (foldl (\<lambda>acc p. receive JSON_parse (content_message p) acc) initial_state
            [''{"name":"A"'', '',"address":"x"}\<newline>{"name":"B","address":"y"}\<newline>''])) =
       [JObj [(''name'', JStr ''A''), (''address'', JStr ''x'')],
        JObj [(''name'', JStr ''B''), (''address'', JStr ''y'')]]\<close>
proof -
  have k: "''key'' \<noteq> []" by simp
  have a: \<open>JSON_parse ''{"name":"A","address":"x"}'' =
           Some (JObj [(''name'', JStr ''A''), (''address'', JStr ''x'')])\<close>
    by code_simp
  have b: \<open>JSON_parse ''{"name":"B","address":"y"}'' =
           Some (JObj [(''name'', JStr ''B''), (''address'', JStr ''y'')])\<close>
    by code_simp
  show ?thesis by (rule straddling_record [OF k a b])
qed

section \<open>Lines that give no record\<close>

text \<open>
  C5. A line that \<open>JSON.parse\<close> rejects is dropped and decoding goes on. \<open>l\<close> is the
  rejected line. First, the run ends in the state that the same stream without that line
  ends in (\<open>pre\<close> is the text before the line, empty or ending in a newline, \<open>post\<close> the
  text after it): for the SDK's text, for the response body of index.tsx, and for a content
  payload. Second, with the lines \<open>before\<close> and \<open>after\<close> it and the unterminated text
  \<open>r\<close> at the end, the leads are exactly the values of the lines before it followed by
  the values of the lines after it and of \<open>r\<close>: every later line that parses is appended,
  in order. Third, in index.tsx an envelope line \<open>e\<close> that follows a rejected line of the
  response body is handled as if it came first. Fourth, a rejected text left without a
  newline at completion adds nothing either. Last, no text of the stream sets \<open>error\<close>.
\<close>

theorem parse_failure_not_fatal:
  assumes "nl \<notin> set l" and "parse (trim l) = None" and "pre = [] \<or> last pre = nl"
    and "\<forall>g\<in>set before. nl \<notin> set g" and "\<forall>g\<in>set after. nl \<notin> set g"
    and "nl \<notin> set r" and "apiKey \<noteq> []"
    and "nl \<notin> set e" and "trim e \<noteq> []" and "parse (trim e) = Some message"
  shows "runSearch_sdk parse apiKey (Inr [text_chunk (pre @ l @ [nl] @ post)]) =
         runSearch_sdk parse apiKey (Inr [text_chunk (pre @ post)])
       \<and> runSearch parse
           (Inr \<lparr>ok = True, status = n, response_text = t,
                 body = Some [Value (pre @ l @ [nl] @ post)]\<rparr>) =
         runSearch parse
           (Inr \<lparr>ok = True, status = n, response_text = t, body = Some [Value (pre @ post)]\<rparr>)
       \<and> flush parse (receive parse (content_message (pre @ l @ [nl] @ post)) initial_state) =
         flush parse (receive parse (content_message (pre @ post)) initial_state)
       \<and> leads (runSearch_sdk parse apiKey
                  (Inr [text_chunk (concat (map (\<lambda>g. g @ [nl]) before) @ l @ [nl]
                                     @ concat (map (\<lambda>g. g @ [nl]) after) @ r)])) =
         List.map_filter (parsed_line parse) before
           @ List.map_filter (parsed_line parse) (after @ [r])
       \<and> leads (flush parse
                  (receive parse
                     (content_message (concat (map (\<lambda>g. g @ [nl]) before) @ l @ [nl]
                                        @ concat (map (\<lambda>g. g @ [nl]) after) @ r))
                     initial_state)) =
         List.map_filter (parsed_line parse) before
           @ List.map_filter (parsed_line parse) (after @ [r])
       \<and> runSearch parse
           (Inr \<lparr>ok = True, status = n, response_text = t,
                 body = Some [Value (l @ [nl] @ e @ [nl])]\<rparr>) =
         (flush parse (receive parse message initial_state))\<lparr>isLoading := False\<rparr>
       \<and> leads (runSearch_sdk parse apiKey (Inr [text_chunk (pre @ l)])) =
         leads (runSearch_sdk parse apiKey (Inr [text_chunk pre]))
       \<and> leads (flush parse (receive parse (content_message (pre @ l)) initial_state)) =
         leads (flush parse (receive parse (content_message pre) initial_state))
       \<and> error (runSearch_sdk parse apiKey (Inr (map Chunk cs))) = None
       \<and> error (runSearch parse
                  (Inr \<lparr>ok = True, status = n, response_text = t,
                        body = Some (map Value frags)\<rparr>)) = None"
proof -
  have lead: "\<And>acc. parse_lead parse (trim l) acc = acc"
    using assms(2) by (simp add: parse_lead_def)
  have line: "\<And>st. process_line parse (trim l) st = st"
    using assms(2) by (simp add: process_line_def)
  have r: "rest_from [] (pre @ l @ [nl] @ post) = rest_from [] (pre @ post)"
    using assms(1) by (simp add: lines_after_boundary [OF assms(3)] rest_from_line)
  have same: "runSearch_sdk parse apiKey (Inr [text_chunk (pre @ l @ [nl] @ post)]) =
         runSearch_sdk parse apiKey (Inr [text_chunk (pre @ post)])
       \<and> runSearch parse
           (Inr \<lparr>ok = True, status = n, response_text = t,
                 body = Some [Value (pre @ l @ [nl] @ post)]\<rparr>) =
         runSearch parse
           (Inr \<lparr>ok = True, status = n, response_text = t, body = Some [Value (pre @ post)]\<rparr>)
       \<and> flush parse (receive parse (content_message (pre @ l @ [nl] @ post)) initial_state) =
         flush parse (receive parse (content_message (pre @ post)) initial_state)"
    unfolding run_text_chunk run_content run_value
      leads_skip_line [OF assms(3,1) lead] state_skip_line [OF assms(3,1) line] r
    by simp
  have none: "parsed_line parse l = None"
    using assms(2) by (simp add: parsed_line_def)
  have all: "\<forall>g\<in>set (before @ [l] @ after). nl \<notin> set g"
    using assms(1,4,5) by auto
  have whole: "concat (map (\<lambda>g. g @ [nl]) before) @ l @ [nl]
                @ concat (map (\<lambda>g. g @ [nl]) after) @ r =
              concat (map (\<lambda>g. g @ [nl]) (before @ [l] @ after)) @ r"
    by simp
  have kept: "List.map_filter (parsed_line parse) ((before @ [l] @ after) @ [r]) =
              List.map_filter (parsed_line parse) before
                @ List.map_filter (parsed_line parse) (after @ [r])"
    using none by (simp add: map_filter_app List.map_filter_simps)
  have later: "leads (runSearch_sdk parse apiKey
                  (Inr [text_chunk (concat (map (\<lambda>g. g @ [nl]) before) @ l @ [nl]
                                     @ concat (map (\<lambda>g. g @ [nl]) after) @ r)])) =
         List.map_filter (parsed_line parse) before
           @ List.map_filter (parsed_line parse) (after @ [r])"
    unfolding whole leads_of_text(1) [OF all assms(6,7)] kept ..
  have later': "leads (flush parse
                  (receive parse
                     (content_message (concat (map (\<lambda>g. g @ [nl]) before) @ l @ [nl]
                                        @ concat (map (\<lambda>g. g @ [nl]) after) @ r))
                     initial_state)) =
         List.map_filter (parsed_line parse) before
           @ List.map_filter (parsed_line parse) (after @ [r])"
    unfolding whole leads_of_text(2) [OF all assms(6)] kept ..
  have outer: "runSearch parse
           (Inr \<lparr>ok = True, status = n, response_text = t,
                 body = Some [Value (l @ [nl] @ e @ [nl])]\<rparr>) =
         (flush parse (receive parse message initial_state))\<lparr>isLoading := False\<rparr>"
    unfolding run_two_lines [OF assms(1,8)] line
    using assms(9,10) by (simp add: process_line_def)
  have l1: "lines_from [] (pre @ l) = lines_from [] pre"
    and r1: "rest_from [] (pre @ l) = l"
    using assms(1)
    by (simp_all add: lines_after_boundary [OF assms(3)] lines_from_no_nl rest_from_no_nl_id)
  have r0: "rest_from [] pre = []" by (rule rest_from_boundary [OF assms(3)])
  have unterminated: "leads (runSearch_sdk parse apiKey (Inr [text_chunk (pre @ l)])) =
         leads (runSearch_sdk parse apiKey (Inr [text_chunk pre]))
       \<and> leads (flush parse (receive parse (content_message (pre @ l)) initial_state)) =
         leads (flush parse (receive parse (content_message pre) initial_state))"
    using assms(7)
    by (simp add: run_text_chunk run_content flush_leads l1 r1 r0 lead)
       (simp add: parse_lead_def trim_def)
  from same later later' outer unterminated no_error_from_text(1) [OF assms(7), of parse cs]
    no_error_from_text(2) [of parse n t frags]
  show ?thesis by simp
qed

theorem parse_failure_not_fatal_witness:
  \<open>runSearch_sdk JSON_parse ''key'' (Inr [text_chunk ''{}\<newline>oops\<newline>[1]\<newline>'']) =
   runSearch_sdk JSON_parse ''key'' (Inr [text_chunk ''{}\<newline>[1]\<newline>''])
   \<and> runSearch JSON_parse
       (Inr \<lparr>ok = True, status = 200, response_text = Inr [],
             body = Some [Value ''{}\<newline>oops\<newline>[1]\<newline>'']\<rparr>) =
     runSearch JSON_parse
       (Inr \<lparr>ok = True, status = 200, response_text = Inr [],
             body = Some [Value ''{}\<newline>[1]\<newline>'']\<rparr>)
   \<and> flush JSON_parse
       (receive JSON_parse (content_message ''{}\<newline>oops\<newline>[1]\<newline>'') initial_state) =
     flush JSON_parse (receive JSON_parse (content_message ''{}\<newline>[1]\<newline>'') initial_state)
   \<and> leads (runSearch_sdk JSON_parse ''key''
              (Inr [text_chunk ''{}\<newline>oops\<newline>[1]\<newline>nope\<newline>42''])) =
     [JObj [], JArr [JNum ''1''], JNum ''42'']
   \<and> leads (flush JSON_parse
              (receive JSON_parse
                 (content_message ''{}\<newline>oops\<newline>[1]\<newline>nope\<newline>42'')
                 initial_state)) =
     [JObj [], JArr [JNum ''1''], JNum ''42'']
   \<and> runSearch JSON_parse
       (Inr \<lparr>ok = True, status = 200, response_text = Inr [],
             body = Some [Value ''oops\<newline>{"type":"content","payload":"{}"}\<newline>'']\<rparr>) =
     (flush JSON_parse (receive JSON_parse (content_message ''{}'') initial_state))
       \<lparr>isLoading := False\<rparr>
   \<and> leads (runSearch_sdk JSON_parse ''key'' (Inr [text_chunk ''{}\<newline>oops''])) =
     leads (runSearch_sdk JSON_parse ''key'' (Inr [text_chunk ''{}\<newline>'']))
   \<and> leads (flush JSON_parse (receive JSON_parse (content_message ''{}\<newline>oops'') initial_state)) =
     leads (flush JSON_parse (receive JSON_parse (content_message ''{}\<newline>'') initial_state))
   \<and> error (runSearch_sdk JSON_parse ''key'' (Inr [text_chunk ''oops\<newline>''])) = None
   \<and> error (runSearch JSON_parse
              (Inr \<lparr>ok = True, status = 200, response_text = Inr [],
                    body = Some [Value ''oops\<newline>'']\<rparr>)) = None\<close>
proof -
  let ?e = \<open>''{"type":"content","payload":"{}"}''\<close>
  have 1: "nl \<notin> set ''oops''" by simp
  have 2: "JSON_parse (trim ''oops'') = None" by code_simp
  have 3: \<open>''{}\<newline>'' = [] \<or> last ''{}\<newline>'' = nl\<close> by simp
  have 4: "\<forall>g\<in>set [''{}'']. nl \<notin> set g" by simp
  have 5: "\<forall>g\<in>set [''[1]'', ''nope'']. nl \<notin> set g" by simp
  have 6: "nl \<notin> set ''42''" by simp
  have 7: "''key'' \<noteq> []" by simp
  have 8: "nl \<notin> set ?e" by simp
  have te: "trim ?e = ?e" by (simp add: trim_def is_space_def)
  have 9: "trim ?e \<noteq> []" unfolding te by simp
  have 10: "JSON_parse (trim ?e) = Some (content_message ''{}'')"
    unfolding te by (rule content_line)
  have p1: "parsed_line JSON_parse ''{}'' = Some (JObj [])" by code_simp
  have p2: "parsed_line JSON_parse ''[1]'' = Some (JArr [JNum ''1''])" by code_simp
  have p3: "parsed_line JSON_parse ''nope'' = None" by code_simp
  have p4: "parsed_line JSON_parse ''42'' = Some (JNum ''42'')" by code_simp
  show ?thesis
    using parse_failure_not_fatal
      [where parse = JSON_parse and l = "''oops''" and pre = \<open>''{}\<newline>''\<close>
         and post = \<open>''[1]\<newline>''\<close> and apiKey = "''key''" and n = 200 and t = "Inr []"
         and before = "[''{}'']" and after = "[''[1]'', ''nope'']" and r = "''42''"
         and e = ?e and message = "content_message ''{}''"
         and cs = \<open>[\<lparr>groundingChunks = None, chunk_text = Some ''oops\<newline>''\<rparr>]\<close>
         and frags = \<open>[''oops\<newline>'']\<close>,
       OF 1 2 3 4 5 6 7 8 9 10]
    by (simp add: List.map_filter_simps p1 p2 p3 p4 text_chunk_def)
qed

text \<open>
  C6. A line that is empty after trimming is skipped: the run ends in the state that the same
  stream without that line ends in, with the same leads, sources and error.
\<close>

theorem blank_line_skipped:
  assumes "nl \<notin> set l" and "trim l = []" and "pre = [] \<or> last pre = nl"
  shows "runSearch_sdk parse apiKey (Inr [text_chunk (pre @ l @ [nl] @ post)]) =
         runSearch_sdk parse apiKey (Inr [text_chunk (pre @ post)])
       \<and> runSearch parse
           (Inr \<lparr>ok = True, status = n, response_text = t,
                 body = Some [Value (pre @ l @ [nl] @ post)]\<rparr>) =
         runSearch parse
           (Inr \<lparr>ok = True, status = n, response_text = t, body = Some [Value (pre @ post)]\<rparr>)
       \<and> flush parse (receive parse (content_message (pre @ l @ [nl] @ post)) initial_state) =
         flush parse (receive parse (content_message (pre @ post)) initial_state)"
proof -
  have lead: "\<And>acc. parse_lead parse (trim l) acc = acc"
    using assms(2) by (simp add: parse_lead_def)
  have line: "\<And>st. process_line parse (trim l) st = st"
    using assms(2) by (simp add: process_line_def)
  have r: "rest_from [] (pre @ l @ [nl] @ post) = rest_from [] (pre @ post)"
    using assms(1) by (simp add: lines_after_boundary [OF assms(3)] rest_from_line)
  show ?thesis
    unfolding run_text_chunk run_content run_value
      leads_skip_line [OF assms(3,1) lead] state_skip_line [OF assms(3,1) line] r
    by simp
qed

theorem blank_line_skipped_witness:
  \<open>runSearch_sdk JSON_parse ''key'' (Inr [text_chunk ''{}\<newline>  \<newline>[1]\<newline>'']) =
   runSearch_sdk JSON_parse ''key'' (Inr [text_chunk ''{}\<newline>[1]\<newline>''])
   \<and> runSearch JSON_parse
       (Inr \<lparr>ok = True, status = 200, response_text = Inr [],
             body = Some [Value ''{}\<newline>  \<newline>[1]\<newline>'']\<rparr>) =
     runSearch JSON_parse
       (Inr \<lparr>ok = True, status = 200, response_text = Inr [],
             body = Some [Value ''{}\<newline>[1]\<newline>'']\<rparr>)
   \<and> flush JSON_parse
       (receive JSON_parse (content_message ''{}\<newline>  \<newline>[1]\<newline>'') initial_state) =
     flush JSON_parse (receive JSON_parse (content_message ''{}\<newline>[1]\<newline>'') initial_state)\<close>
proof -
  have 1: "nl \<notin> set ''  ''" by simp
  have 2: "trim ''  '' = []" by (simp add: trim_def is_space_def)
  have 3: \<open>''{}\<newline>'' = [] \<or> last ''{}\<newline>'' = nl\<close> by simp
  show ?thesis
    using blank_line_skipped
      [where parse = JSON_parse and l = "''  ''" and pre = \<open>''{}\<newline>''\<close>
         and post = \<open>''[1]\<newline>''\<close> and apiKey = "''key''" and n = 200 and t = "Inr []",
       OF 1 2 3]
    by simp
qed


section \<open>Lines that give a record\<close>



text \<open>
  C9. No schema validation. A line that is non-empty after trimming and that \<open>JSON.parse\<close>
  accepts is appended to the leads as the value \<open>v\<close> it parses to, whatever that value
  is: the leads are those of the text before the line, followed by \<open>v\<close>.
\<close>

theorem no_schema_validation:
  assumes "nl \<notin> set l" and "trim l \<noteq> []" and "parse (trim l) = Some v"
    and "pre = [] \<or> last pre = nl" and "apiKey \<noteq> []"
  shows "leads (runSearch_sdk parse apiKey (Inr [text_chunk (pre @ l @ [nl])])) =
         leads (runSearch_sdk parse apiKey (Inr [text_chunk pre])) @ [v]
       \<and> leads (flush parse (receive parse (content_message (pre @ l @ [nl])) initial_state)) =
         leads (flush parse (receive parse (content_message pre) initial_state)) @ [v]"
proof -
  have l1: "lines_from [] (pre @ l @ [nl]) = lines_from [] pre @ [l]"
    and r1: "rest_from [] (pre @ l @ [nl]) = []"
    using lines_with_line [OF assms(4,1), of "[]"] by simp_all
  have r0: "rest_from [] pre = []" by (rule rest_from_boundary [OF assms(4)])
  have step: "leads_of_lines parse [] (lines_from [] pre @ [l]) =
              leads_of_lines parse [] (lines_from [] pre) @ [v]"
    using assms(2,3) by (simp add: leads_of_lines_def parse_lead_def)
  show ?thesis
    using assms(5)
    by (simp add: run_text_chunk run_content flush_leads l1 r1 r0 step parse_lead_def trim_def)
qed

theorem no_schema_validation_witness:
  \<open>leads (runSearch_sdk JSON_parse ''key'' (Inr [text_chunk ''{}\<newline> 42 \<newline>''])) =
   leads (runSearch_sdk JSON_parse ''key'' (Inr [text_chunk ''{}\<newline>''])) @ [JNum ''42'']
   \<and> leads (flush JSON_parse (receive JSON_parse (content_message ''{}\<newline> 42 \<newline>'') initial_state)) =
     leads (flush JSON_parse (receive JSON_parse (content_message ''{}\<newline>'') initial_state))
       @ [JNum ''42'']\<close>
proof -
  have t: "trim '' 42 '' = ''42''" by (simp add: trim_def is_space_def)
  have 1: "nl \<notin> set '' 42 ''" by simp
  have 2: "trim '' 42 '' \<noteq> []" by (simp add: t)
  have 3: "JSON_parse (trim '' 42 '') = Some (JNum ''42'')" unfolding t by code_simp
  have 4: \<open>''{}\<newline>'' = [] \<or> last ''{}\<newline>'' = nl\<close> by simp
  have 5: "''key'' \<noteq> []" by simp
  show ?thesis
    using no_schema_validation
      [where parse = JSON_parse and l = "'' 42 ''" and pre = \<open>''{}\<newline>''\<close>, OF 1 2 3 4 5]
    by simp
qed


section \<open>Transport errors\<close>

text \<open>
  C8. Partial results survive a transport error. When a read of the response body rejects
  (index.tsx), or the iteration over the SDK's stream throws, after some fragments were
  decoded, the leads and the sources at the end are the ones reached before the failure,
  and \<open>error\<close> holds the one message of that failure. A response that is not ok, a
  missing body and a rejected \<open>fetch\<close> each set one message too.
\<close>

theorem partial_results_survive:
  assumes "apiKey \<noteq> []"
  shows "leads (runSearch parse
                 (Inr \<lparr>ok = True, status = n, response_text = t,
                       body = Some (map Value frags @ Rejected e # rest)\<rparr>)) =
           leads (snd (read_loop parse (map Value frags) [] initial_state))
       \<and> sources (runSearch parse
                 (Inr \<lparr>ok = True, status = n, response_text = t,
                       body = Some (map Value frags @ Rejected e # rest)\<rparr>)) =
           sources (snd (read_loop parse (map Value frags) [] initial_state))
       \<and> error (runSearch parse
                 (Inr \<lparr>ok = True, status = n, response_text = t,
                       body = Some (map Value frags @ Rejected e # rest)\<rparr>)) =
           Some (errorMessage e)
       \<and> leads (runSearch_sdk parse apiKey (Inr (map Chunk cs @ Throws e # items))) =
           leads (snd (for_await parse (map Chunk cs) initial_sdk_state))
       \<and> sources (runSearch_sdk parse apiKey (Inr (map Chunk cs @ Throws e # items))) =
           sources (snd (for_await parse (map Chunk cs) initial_sdk_state))
       \<and> error (runSearch_sdk parse apiKey (Inr (map Chunk cs @ Throws e # items))) =
           Some (errorMessage_sdk e)
       \<and> error (runSearch parse
                 (Inr \<lparr>ok = False, status = n, response_text = Inr errorText, body = b\<rparr>)) =
           Some (errorMessage (Error (''Failed to fetch from server: '' @ decimal n @ '' ''
                                        @ errorText)))
       \<and> error (runSearch parse
                 (Inr \<lparr>ok = True, status = n, response_text = t, body = None\<rparr>)) =
           Some ''Response body is missing.''
       \<and> error (runSearch parse (Inl e)) = Some (errorMessage e)"
proof -
  have i: "nl \<notin> set []" by simp
  show ?thesis
    using assms
    by (simp add: runSearch_def try_block_def runSearch_sdk_def
        read_loop_rejected [OF i] for_await_throws split: prod.splits)
qed

theorem partial_results_survive_witness:
  \<open>leads (runSearch JSON_parse
            (Inr \<lparr>ok = True, status = 200, response_text = Inr [],
                  body = Some (map Value [''{"type":"content","payload":"{}'' @ [CHR 0x5C]
                                            @ ''n"}\<newline>'']
                               @ Rejected (Error ''network error'') # [])\<rparr>)) = [JObj []]
   \<and> error (runSearch JSON_parse
            (Inr \<lparr>ok = True, status = 200, response_text = Inr [],
                  body = Some (map Value [''{"type":"content","payload":"{}'' @ [CHR 0x5C]
                                            @ ''n"}\<newline>'']
                               @ Rejected (Error ''network error'') # [])\<rparr>)) =
       Some ''network error''
   \<and> leads (runSearch_sdk JSON_parse ''key''
              (Inr (map Chunk [\<lparr>groundingChunks = None, chunk_text = Some ''{}\<newline>''\<rparr>]
                    @ Throws (Error ''network error'') # []))) = [JObj []]
   \<and> error (runSearch_sdk JSON_parse ''key''
              (Inr (map Chunk [\<lparr>groundingChunks = None, chunk_text = Some ''{}\<newline>''\<rparr>]
                    @ Throws (Error ''network error'') # []))) = Some ''network error''\<close>
proof -
  let ?e = \<open>''{"type":"content","payload":"{}'' @ [CHR 0x5C] @ ''n"}''\<close>
  have k: "''key'' \<noteq> []" by simp
  have p: "JSON_parse ''{}'' = Some (JObj [])" by code_simp
  have pe: \<open>JSON_parse ?e = Some (content_message ''{}\<newline>'')\<close>
    unfolding content_message_def by code_simp
  have te: "trim ?e = ?e" by (simp add: trim_def is_space_def)
  have i: "nl \<notin> set (jsonBuffer initial_sdk_state)" by (simp add: initial_sdk_state_def)
  have j: "nl \<notin> set (jsonBuffer initial_state)" by (simp add: initial_state_def)
  have ls: \<open>leads_of_lines JSON_parse [] (lines_from [] ''{}\<newline>'') = [JObj []]\<close>
    by (simp add: leads_of_lines_def parse_lead_def trim_def is_space_def p)
  have a: \<open>leads (snd (for_await JSON_parse
               (map Chunk [\<lparr>groundingChunks = None, chunk_text = Some ''{}\<newline>''\<rparr>])
               initial_sdk_state)) = [JObj []]\<close>
    unfolding for_await_chunks [OF i] using ls
    by (simp add: text_of_def initial_sdk_state_def)
  have l: "lines_from [] (?e @ [nl]) = [?e]"
    using lines_from_line [of ?e "[]" "[]"] by simp
  have "state_of_lines JSON_parse initial_state (lines_from [] (?e @ [nl])) =
        process_line JSON_parse (trim ?e) initial_state"
    unfolding l by (simp add: state_of_lines_def)
  also have "\<dots> = receive JSON_parse (content_message ''{}\<newline>'') initial_state"
    unfolding te process_line_def pe by simp
  finally have "state_of_lines JSON_parse initial_state (lines_from [] (?e @ [nl])) =
                initial_state\<lparr>jsonBuffer := rest_from (jsonBuffer initial_state) ''{}\<newline>'',
                  leads := leads_of_lines JSON_parse (leads initial_state)
                             (lines_from (jsonBuffer initial_state) ''{}\<newline>'')\<rparr>"
    unfolding handle_content [OF j] .
  then have st: "leads (state_of_lines JSON_parse initial_state (lines_from [] (?e @ [nl]))) =
                 [JObj []]"
    using ls by (simp add: initial_state_def)
  have "nl \<notin> set []" by simp
  from read_loop_values [OF this, of JSON_parse "[?e @ [nl]]" initial_state] st
  have b: "leads (snd (read_loop JSON_parse (map Value [?e @ [nl]]) [] initial_state)) = [JObj []]"
    by simp
  have m: "errorMessage (Error ''network error'') = ''network error''" by simp
  show ?thesis
    using partial_results_survive
      [where parse = JSON_parse and apiKey = "''key''" and e = "Error ''network error''"
         and frags = "[?e @ [nl]]" and rest = "[]" and items = "[]" and n = 200 and t = "Inr []"
         and cs = \<open>[\<lparr>groundingChunks = None, chunk_text = Some ''{}\<newline>''\<rparr>]\<close>,
       OF k] a b m
    by simp
qed


section \<open>Sources\<close>

text \<open>
  C3. In index.tsx the entries of a sources envelope are appended to \<open>sources\<close> as they
  come; no uri is compared (the comment at line 162 leaves uniqueness to the server). The
  SDK variant does keep the set of uris seen: there the same batch fed twice gives its
  source once.
\<close>

theorem sources_appended_as_received:
  assumes "line \<noteq> []" and "parse line = Some message"
    and "property message ''type'' = Some (JStr ''sources'')"
    and "property message ''payload'' = Some (JArr entries)"
    and "web c = Some w" and "uri w \<noteq> []"
  shows "process_line parse line st = st\<lparr>sources := sources st @ entries\<rparr>
       \<and> sources (snd (for_await parse
                         [Chunk \<lparr>groundingChunks = Some [c], chunk_text = t1\<rparr>,
                          Chunk \<lparr>groundingChunks = Some [c], chunk_text = t2\<rparr>]
                         initial_sdk_state)) = [c]"
  using assms(1,2) receive_sources [OF assms(3,4)] same_batch_twice [OF assms(5,6)]
  by (simp add: process_line_def)

theorem sources_appended_as_received_witness:
  \<open>process_line JSON_parse
     ''{"type":"sources","payload":[{"web":{"uri":"http://a","title":"A"}}]}'' initial_state =
   initial_state\<lparr>sources := sources initial_state
       @ [JObj [(''web'', JObj [(''uri'', JStr ''http://a''), (''title'', JStr ''A'')])]]\<rparr>
   \<and> sources (snd (for_await JSON_parse
        [Chunk \<lparr>groundingChunks = Some [\<lparr>web = Some \<lparr>uri = ''http://a'', title = ''A''\<rparr>\<rparr>],
                chunk_text = None\<rparr>,
         Chunk \<lparr>groundingChunks = Some [\<lparr>web = Some \<lparr>uri = ''http://a'', title = ''A''\<rparr>\<rparr>],
                chunk_text = None\<rparr>]
        initial_sdk_state)) = [\<lparr>web = Some \<lparr>uri = ''http://a'', title = ''A''\<rparr>\<rparr>]\<close>
proof -
  let ?l = \<open>''{"type":"sources","payload":[{"web":{"uri":"http://a","title":"A"}}]}''\<close>
  let ?src = \<open>JObj [(''web'', JObj [(''uri'', JStr ''http://a''), (''title'', JStr ''A'')])]\<close>
  let ?m = \<open>JObj [(''type'', JStr ''sources''), (''payload'', JArr [?src])]\<close>
  have 1: "?l \<noteq> []" by simp
  have 3: "property ?m ''type'' = Some (JStr ''sources'')" by simp
  have 4: "property ?m ''payload'' = Some (JArr [?src])" by simp
  have 5: "web \<lparr>web = Some \<lparr>uri = ''http://a'', title = ''A''\<rparr>\<rparr> =
           Some \<lparr>uri = ''http://a'', title = ''A''\<rparr>" by simp
  have 6: "uri \<lparr>uri = ''http://a'', title = ''A''\<rparr> \<noteq> []" by simp
  show ?thesis
    using sources_appended_as_received
      [where parse = JSON_parse and st = initial_state and ?t1.0 = None and ?t2.0 = None,
       OF 1 sources_line 3 4 5 6]
    by simp
qed

text \<open>
  C3 as the specification states it, deduplication by uri in the envelope variant, fails:
  the same sources envelope fed twice gives two entries with the same uri.
\<close>

theorem sources_envelope_twice_counterexample:
  \<open>sources (runSearch JSON_parse
      (Inr \<lparr>ok = True, status = 200, response_text = Inr [],
            body = Some
              [Value ''{"type":"sources","payload":[{"web":{"uri":"http://a","title":"A"}}]}\<newline>'',
               Value ''{"type":"sources","payload":[{"web":{"uri":"http://a","title":"A"}}]}\<newline>'']\<rparr>)) =
    [JObj [(''web'', JObj [(''uri'', JStr ''http://a''), (''title'', JStr ''A'')])],
     JObj [(''web'', JObj [(''uri'', JStr ''http://a''), (''title'', JStr ''A'')])]]\<close>
proof -
  let ?l = \<open>''{"type":"sources","payload":[{"web":{"uri":"http://a","title":"A"}}]}''\<close>
  let ?src = \<open>JObj [(''web'', JObj [(''uri'', JStr ''http://a''), (''title'', JStr ''A'')])]\<close>
  let ?m = \<open>JObj [(''type'', JStr ''sources''), (''payload'', JArr [?src])]\<close>
  have t: "trim ?l = ?l" by (simp add: trim_def is_space_def)
  have 3: "property ?m ''type'' = Some (JStr ''sources'')" by simp
  have 4: "property ?m ''payload'' = Some (JArr [?src])" by simp
  have line: "\<And>st. process_line JSON_parse (trim ?l) st = st\<lparr>sources := sources st @ [?src]\<rparr>"
    unfolding t process_line_def sources_line using receive_sources [OF 3 4] by simp
  have "\<forall>l\<in>set [?l, ?l]. nl \<notin> set l" by simp
  from lines_terminated [OF this]
  have ls: "lines_from [] (concat [?l @ [nl], ?l @ [nl]]) = [?l, ?l]" by simp
  have "runSearch JSON_parse
          (Inr \<lparr>ok = True, status = 200, response_text = Inr [],
                body = Some (map Value [?l @ [nl], ?l @ [nl]])\<rparr>) =
        (flush JSON_parse (state_of_lines JSON_parse initial_state [?l, ?l]))\<lparr>isLoading := False\<rparr>"
    unfolding runSearch_values ls ..
  moreover have "sources (state_of_lines JSON_parse initial_state [?l, ?l]) = [?src, ?src]"
    unfolding state_of_lines_def foldl.simps line by (simp add: initial_state_def)
  ultimately have "sources (runSearch JSON_parse
          (Inr \<lparr>ok = True, status = 200, response_text = Inr [],
                body = Some (map Value [?l @ [nl], ?l @ [nl]])\<rparr>)) = [?src, ?src]"
    by (simp add: flush_def split: option.splits)
  then show ?thesis by simp
qed


section \<open>Completion\<close>

text \<open>
  C4. At completion the text left in \<open>jsonBuffer\<close> (the only buffer of the SDK variant,
  the inner buffer of index.tsx) is trimmed and, when it is not empty, parsed once more: a
  last record \<open>r\<close> with no newline after it is appended after the leads of the text
  before it. For index.tsx this is shown for a content payload, and for a response body
  whose one envelope line carries that payload.
\<close>

theorem flush_parses_residual:
  assumes "nl \<notin> set r" and "trim r \<noteq> []" and "parse (trim r) = Some v"
    and "pre = [] \<or> last pre = nl" and "apiKey \<noteq> []"
    and "nl \<notin> set e" and "trim e \<noteq> []" and "parse (trim e) = Some (content_message (pre @ r))"
  shows "leads (runSearch_sdk parse apiKey (Inr [text_chunk (pre @ r)])) =
         leads (runSearch_sdk parse apiKey (Inr [text_chunk pre])) @ [v]
       \<and> leads (flush parse (receive parse (content_message (pre @ r)) initial_state)) =
         leads (flush parse (receive parse (content_message pre) initial_state)) @ [v]
       \<and> leads (runSearch parse
                  (Inr \<lparr>ok = True, status = n, response_text = t,
                        body = Some [Value (e @ [nl])]\<rparr>)) =
         leads (flush parse (receive parse (content_message pre) initial_state)) @ [v]"
proof -
  have l1: "lines_from [] (pre @ r) = lines_from [] pre"
    and r1: "rest_from [] (pre @ r) = r"
    using assms(1)
    by (simp_all add: lines_after_boundary [OF assms(4)] lines_from_no_nl rest_from_no_nl_id)
  have r0: "rest_from [] pre = []" by (rule rest_from_boundary [OF assms(4)])
  have a: "leads (runSearch_sdk parse apiKey (Inr [text_chunk (pre @ r)])) =
           leads (runSearch_sdk parse apiKey (Inr [text_chunk pre])) @ [v]"
    using assms(2,3,5)
    by (simp add: run_text_chunk flush_leads l1 r1 r0 parse_lead_def trim_def)
  have b: "leads (flush parse (receive parse (content_message (pre @ r)) initial_state)) =
           leads (flush parse (receive parse (content_message pre) initial_state)) @ [v]"
    using assms(2,3)
    by (simp add: run_content flush_leads l1 r1 r0 parse_lead_def trim_def)
  have "process_line parse (trim e) initial_state =
        receive parse (content_message (pre @ r)) initial_state"
    using assms(7,8) by (simp add: process_line_def)
  then have c: "leads (runSearch parse
                  (Inr \<lparr>ok = True, status = n, response_text = t,
                        body = Some [Value (e @ [nl])]\<rparr>)) =
         leads (flush parse (receive parse (content_message (pre @ r)) initial_state))"
    unfolding run_one_line [OF assms(6)] by simp
  from a b c show ?thesis by simp
qed

theorem flush_parses_residual_witness:
  \<open>leads (runSearch_sdk JSON_parse ''key'' (Inr [text_chunk ''[1]\<newline>{}''])) =
   leads (runSearch_sdk JSON_parse ''key'' (Inr [text_chunk ''[1]\<newline>''])) @ [JObj []]
   \<and> leads (flush JSON_parse (receive JSON_parse (content_message ''[1]\<newline>{}'') initial_state)) =
     leads (flush JSON_parse (receive JSON_parse (content_message ''[1]\<newline>'') initial_state))
       @ [JObj []]
   \<and> leads (runSearch JSON_parse
              (Inr \<lparr>ok = True, status = 200, response_text = Inr [],
                    body = Some [Value (''{"type":"content","payload":"[1]'' @ [CHR 0x5C]
                                         @ ''n{}"}\<newline>'')]\<rparr>)) =
     leads (flush JSON_parse (receive JSON_parse (content_message ''[1]\<newline>'') initial_state))
       @ [JObj []]\<close>
proof -
  let ?e = \<open>''{"type":"content","payload":"[1]'' @ [CHR 0x5C] @ ''n{}"}''\<close>
  have t: "trim ''{}'' = ''{}''" by (simp add: trim_def is_space_def)
  have te: "trim ?e = ?e" by (simp add: trim_def is_space_def)
  have 1: "nl \<notin> set ''{}''" by simp
  have 2: "trim ''{}'' \<noteq> []" by (simp add: t)
  have 3: "JSON_parse (trim ''{}'') = Some (JObj [])" unfolding t by code_simp
  have 4: \<open>''[1]\<newline>'' = [] \<or> last ''[1]\<newline>'' = nl\<close> by simp
  have 5: "''key'' \<noteq> []" by simp
  have 6: "nl \<notin> set ?e" by simp
  have 7: "trim ?e \<noteq> []" unfolding te by simp
  have 8: \<open>JSON_parse (trim ?e) = Some (content_message (''[1]\<newline>'' @ ''{}''))\<close>
    unfolding te content_message_def by code_simp
  show ?thesis
    using flush_parses_residual
      [where parse = JSON_parse and r = "''{}''" and pre = \<open>''[1]\<newline>''\<close> and e = ?e
         and n = 200 and t = "Inr []", OF 1 2 3 4 5 6 7 8]
    by simp
qed

text \<open>
  C4 as the specification states it covers the outer buffer too, and fails there:
  index.tsx never looks at \<open>streamBuffer\<close> after the loop, so an envelope line with no
  newline after it is lost with the lead it carries, while the same line followed by a newline
  gives the lead.
\<close>

theorem outer_residual_counterexample:
  \<open>leads (runSearch JSON_parse
            (Inr \<lparr>ok = True, status = 200, response_text = Inr [],
                  body = Some [Value ''{"type":"content","payload":"{}"}'']\<rparr>)) = []
   \<and> leads (runSearch JSON_parse
            (Inr \<lparr>ok = True, status = 200, response_text = Inr [],
                  body = Some [Value ''{"type":"content","payload":"{}"}\<newline>'']\<rparr>)) = [JObj []]\<close>
proof -
  let ?e = \<open>''{"type":"content","payload":"{}"}''\<close>
  have n: "nl \<notin> set ?e" by simp
  have te: "trim ?e = ?e" by (simp add: trim_def is_space_def)
  have "lines_from [] ?e = []" by (rule lines_from_no_nl [OF n])
  then have 1: "leads (runSearch JSON_parse
            (Inr \<lparr>ok = True, status = 200, response_text = Inr [], body = Some [Value ?e]\<rparr>)) = []"
    unfolding run_value
    by (simp add: state_of_lines_def flush_leads parse_lead_def trim_def initial_state_def)
  have pl: "process_line JSON_parse (trim ?e) initial_state =
        receive JSON_parse (content_message ''{}'') initial_state"
    unfolding te process_line_def content_line by simp
  have "leads (runSearch JSON_parse
            (Inr \<lparr>ok = True, status = 200, response_text = Inr [],
                  body = Some [Value (?e @ [nl])]\<rparr>)) =
        leads (flush JSON_parse (receive JSON_parse (content_message ''{}'') initial_state))"
    unfolding run_one_line [OF n] pl by simp
  also have "\<dots> = [JObj []]"
    unfolding run_content
    by (simp add: flush_leads parse_lead_def trim_def is_space_def leads_of_lines_def
        empty_object)
  finally show ?thesis using 1 by simp
qed

section \<open>Envelopes that change nothing\<close>

text \<open>
  C10. An envelope line that parses, and whose type is neither \<open>content\<close> nor
  \<open>sources\<close> or whose payload is missing or falsy, leaves the whole state as it was:
  leads, sources and \<open>jsonBuffer\<close>.
\<close>

theorem ignored_envelope:
  assumes "parse line = Some message"
    and "(property message ''type'' \<noteq> Some (JStr ''content'') \<and>
          property message ''type'' \<noteq> Some (JStr ''sources''))
         \<or> (\<exists>p. property message ''payload'' = Some p \<and> \<not> truthy p)"
  shows "process_line parse line st = st"
  using assms
  by (auto simp: process_line_def receive_def handle_message_def split: option.splits)

theorem ignored_envelope_witness:
  \<open>process_line JSON_parse ''{"type":"content","payload":""}'' initial_state = initial_state
   \<and> process_line JSON_parse ''{"type":"ping","payload":"{}"}'' initial_state = initial_state\<close>
proof -
  have 1: "(property (JObj [(''type'', JStr ''content''), (''payload'', JStr [])]) ''type''
              \<noteq> Some (JStr ''content'') \<and>
            property (JObj [(''type'', JStr ''content''), (''payload'', JStr [])]) ''type''
              \<noteq> Some (JStr ''sources''))
           \<or> (\<exists>p. property (JObj [(''type'', JStr ''content''), (''payload'', JStr [])]) ''payload''
                     = Some p \<and> \<not> truthy p)"
    by simp
  have 2: "(property (JObj [(''type'', JStr ''ping''), (''payload'', JStr ''{}'')]) ''type''
              \<noteq> Some (JStr ''content'') \<and>
            property (JObj [(''type'', JStr ''ping''), (''payload'', JStr ''{}'')]) ''type''
              \<noteq> Some (JStr ''sources''))
           \<or> (\<exists>p. property (JObj [(''type'', JStr ''ping''), (''payload'', JStr ''{}'')]) ''payload''
                     = Some p \<and> \<not> truthy p)"
    by simp
  show ?thesis
    using ignored_envelope [where parse = JSON_parse, OF empty_payload_line 1, of initial_state]
      ignored_envelope [where parse = JSON_parse, OF other_type_line 2, of initial_state]
    by simp
qed


end
